theory Spec2Isabelle
  imports Main "HOL-Library.Word"
begin

unbundle bit_operations_syntax

section \<open>JavaScript strings\<close>

text \<open>
  A JavaScript string is a sequence of UTF-16 code units; \<open>length\<close>, \<open>slice\<close>,
  \<open>startsWith\<close>, \<open>split\<close> and \<open>trim\<close> all work on code units. A chunk of the
  response body is a \<open>Uint8Array\<close>, a sequence of bytes.
\<close>

type_synonym byte = "8 word"
type_synonym jschar = "16 word"
type_synonym jsstring = "jschar list"

text \<open>ASCII literals of the source text, as code units and as bytes.\<close>

definition js :: "string \<Rightarrow> jsstring" where
  "js s = map of_char s"

definition bytes :: "string \<Rightarrow> byte list" where
  "bytes s = map of_char s"

text \<open>
  The code units that \<open>String.prototype.trim\<close> strips and that the regular expression
  class \<open>\s\<close> matches: ECMAScript's WhiteSpace and LineTerminator.
\<close>

definition isWhiteSpace :: "jschar \<Rightarrow> bool" where
  "isWhiteSpace c \<longleftrightarrow>
     c = 0x09 \<or> c = 0x0A \<or> c = 0x0B \<or> c = 0x0C \<or> c = 0x0D \<or> c = 0x20 \<or> c = 0xA0 \<or>
     c = 0x1680 \<or> (0x2000 \<le> c \<and> c \<le> 0x200A) \<or> c = 0x2028 \<or> c = 0x2029 \<or>
     c = 0x202F \<or> c = 0x205F \<or> c = 0x3000 \<or> c = 0xFEFF"

definition trimStart :: "jsstring \<Rightarrow> jsstring" where
  "trimStart s = dropWhile isWhiteSpace s"

definition trimEnd :: "jsstring \<Rightarrow> jsstring" where
  "trimEnd s = rev (dropWhile isWhiteSpace (rev s))"

definition trim :: "jsstring \<Rightarrow> jsstring" where
  "trim s = trimEnd (trimStart s)"

definition startsWith :: "jsstring \<Rightarrow> jsstring \<Rightarrow> bool" where
  "startsWith s p \<longleftrightarrow> take (length p) s = p"

text \<open>\<open>s.includes(p)\<close>: the string \<open>p\<close> occurs somewhere in \<open>s\<close>.\<close>

fun includes_str :: "jsstring \<Rightarrow> jsstring \<Rightarrow> bool" where
  "includes_str [] p = (p = [])"
| "includes_str (c # cs) p = (startsWith (c # cs) p \<or> includes_str cs p)"

text \<open>
  \<open>s.split(sep)\<close> for a string separator: scan from the left; at a position where the
  separator matches, close the current piece and continue behind the match; otherwise
  move the character into the current piece. The empty separator splits into single code
  units. The result of a non-empty separator is never the empty array.
\<close>

function split_from :: "jsstring \<Rightarrow> jsstring \<Rightarrow> jsstring \<Rightarrow> jsstring list" where
  "split_from sep cur s =
     (if s = [] then [cur]
      else if sep \<noteq> [] \<and> startsWith s sep
        then cur # split_from sep [] (drop (length sep) s)
      else split_from sep (cur @ [hd s]) (tl s))"
  by pat_completeness auto
termination
  by (relation "measure (\<lambda>(sep, cur, s). length s)") auto

declare split_from.simps [simp del]

definition split :: "jsstring \<Rightarrow> jsstring \<Rightarrow> jsstring list" where
  "split s sep = (if sep = [] then map (\<lambda>c. [c]) s else split_from sep [] s)"

section \<open>The streaming UTF-8 decoder\<close>

text \<open>
  \<open>new TextDecoder()\<close> is the UTF-8 decoder of the Encoding standard with replacement
  error mode; \<open>decode(value, {stream: true})\<close> keeps the state of an unfinished
  sequence for the next call. Scalar values are written as code units (a surrogate pair
  above the basic plane), and a leading byte order mark is dropped.
\<close>

record decoder =
  code_point :: nat
  bytes_seen :: nat
  bytes_needed :: nat
  lower_boundary :: byte
  upper_boundary :: byte
  bom_seen :: bool

definition new_decoder :: decoder where
  "new_decoder = \<lparr>code_point = 0, bytes_seen = 0, bytes_needed = 0,
     lower_boundary = 0x80, upper_boundary = 0xBF, bom_seen = False\<rparr>"

definition utf8_lead :: "decoder \<Rightarrow> byte \<Rightarrow> nat list \<times> decoder" where
  "utf8_lead d b =
     (if b \<le> 0x7F then ([unat b], d)
      else if 0xC2 \<le> b \<and> b \<le> 0xDF
        then ([], d\<lparr>code_point := unat (b AND 0x1F), bytes_needed := 1\<rparr>)
      else if 0xE0 \<le> b \<and> b \<le> 0xEF
        then ([], d\<lparr>code_point := unat (b AND 0x0F), bytes_needed := 2,
               lower_boundary := (if b = 0xE0 then 0xA0 else lower_boundary d),
               upper_boundary := (if b = 0xED then 0x9F else upper_boundary d)\<rparr>)
      else if 0xF0 \<le> b \<and> b \<le> 0xF4
        then ([], d\<lparr>code_point := unat (b AND 0x07), bytes_needed := 3,
               lower_boundary := (if b = 0xF0 then 0x90 else lower_boundary d),
               upper_boundary := (if b = 0xF4 then 0x8F else upper_boundary d)\<rparr>)
      else ([0xFFFD], d))"

definition utf8_handler :: "decoder \<Rightarrow> byte \<Rightarrow> nat list \<times> decoder" where
  "utf8_handler d b =
     (if bytes_needed d = 0 then utf8_lead d b
      else if b < lower_boundary d \<or> upper_boundary d < b
        then (let (out, d') = utf8_lead (d\<lparr>code_point := 0, bytes_seen := 0, bytes_needed := 0,
                                lower_boundary := 0x80, upper_boundary := 0xBF\<rparr>) b
              in (0xFFFD # out, d'))
      else (let cp = code_point d * 64 + unat (b AND 0x3F) in
            if bytes_seen d + 1 \<noteq> bytes_needed d
              then ([], d\<lparr>code_point := cp, bytes_seen := bytes_seen d + 1,
                     lower_boundary := 0x80, upper_boundary := 0xBF\<rparr>)
            else ([cp], d\<lparr>code_point := 0, bytes_seen := 0, bytes_needed := 0,
                    lower_boundary := 0x80, upper_boundary := 0xBF\<rparr>)))"

fun run_handler :: "decoder \<Rightarrow> byte list \<Rightarrow> nat list \<times> decoder" where
  "run_handler d [] = ([], d)"
| "run_handler d (b # bs) =
     (let (out, d1) = utf8_handler d b; (rest, d2) = run_handler d1 bs in (out @ rest, d2))"

definition code_units :: "nat \<Rightarrow> jsstring" where
  "code_units cp =
     (if cp < 0x10000 then [of_nat cp]
      else [of_nat (0xD800 + (cp - 0x10000) div 0x400),
            of_nat (0xDC00 + (cp - 0x10000) mod 0x400)])"

fun serialize :: "decoder \<Rightarrow> nat list \<Rightarrow> jsstring \<times> decoder" where
  "serialize d [] = ([], d)"
| "serialize d (item # items) =
     (if \<not> bom_seen d
        then (let (s, d') = serialize (d\<lparr>bom_seen := True\<rparr>) items
              in ((if item = 0xFEFF then [] else code_units item) @ s, d'))
      else (let (s, d') = serialize d items in (code_units item @ s, d')))"

definition decode :: "decoder \<Rightarrow> byte list \<Rightarrow> jsstring \<times> decoder" where
  "decode d v = (let (items, d1) = run_handler d v in serialize d1 items)"

text \<open>The text that the decoder delivers over a whole sequence of chunks.\<close>

fun decode_chunks :: "decoder \<Rightarrow> byte list list \<Rightarrow> jsstring" where
  "decode_chunks d [] = []"
| "decode_chunks d (v # vs) = (let (text, d') = decode d v in text @ decode_chunks d' vs)"


section \<open>Data model\<close>

datatype role = User | Assistant | System

record ChatMessage =
  msg_id :: jsstring
  role :: role
  content :: jsstring

record bearer =
  access_token :: jsstring
  expires_at :: jsstring

record SessionItem =
  session_id :: jsstring
  name :: jsstring
  token :: bearer

text \<open>
  A thrown value: an \<open>Error\<close> object with its \<open>name\<close> and \<open>message\<close>, or something
  that is not an \<open>Error\<close>.
\<close>

datatype thrown = ErrorObj jsstring jsstring | NonError

text \<open>
  The fetch calls of the operations below, each with the bearer it presents: the history
  request, the creation of a session, the renaming of a session (its identifier, bearer
  and new name) and the stream request (its bearer, the messages of its body and the
  controller whose signal it carries).
\<close>

datatype request =
    GetMessages jsstring
  | PostSession jsstring
  | PatchName jsstring jsstring jsstring
  | PostStream jsstring "(role \<times> jsstring) list" nat

text \<open>
  The state of \<open>StreamProvider\<close>: its \<open>useState\<close> cells and its refs, followed by the
  world the component acts on: the browser's \<open>localStorage\<close> (absent when there is no
  \<open>window\<close>), the abort controllers created so far (a controller is its number) with
  those whose \<open>abort()\<close> was called, the number of \<open>uuidv4()\<close> calls made, the fetch calls
  issued in order, and the stream requests whose \<open>sendMessage\<close> has run to its end.
\<close>

record state =
  messages :: "ChatMessage list"
  messagesRef :: "ChatMessage list"
  isLoading :: bool
  error :: "jsstring option"
  sessions :: "SessionItem list"
  sessionsLoading :: bool
  currentSessionId :: "jsstring option"
  userToken :: "jsstring option"
  sessionToken :: "jsstring option"
  historyLoadedRef :: bool
  abortRef :: "nat option"
  localStorage :: "(jsstring \<rightharpoonup> jsstring) option"
  controllers :: nat
  aborted :: "nat set"
  settled :: "nat set"
  uuid_calls :: nat
  requests :: "request list"

text \<open>\<open>!x\<close> for a value of type \<open>string | null\<close>: null and the empty string are falsy.\<close>

fun falsy :: "jsstring option \<Rightarrow> bool" where
  "falsy None = True"
| "falsy (Some s) = (s = [])"

text \<open>
  What a fetch gives: it rejects, or it resolves to a response. Of a response to a JSON
  endpoint the code reads the status, the \<open>detail\<close> field of a JSON error body (absent
  when the body is not JSON or has no such field) and the result of \<open>res.json()\<close>, which
  may reject. Of the response to the stream request it reads the status, the \<open>detail\<close> and
  the body stream (\<open>None\<close> when \<open>res.body\<close> is null), given by what its reads resolve to.
\<close>

record 'a response =
  status :: nat
  detail :: "jsstring option"
  data :: "thrown + 'a"

datatype read_result = Value "byte list" | Done | Read_rejected thrown

record stream_response =
  stream_status :: nat
  stream_detail :: "jsstring option"
  body :: "read_result list option"

datatype 'a fetched = Failed thrown | Replied 'a

definition ok :: "nat \<Rightarrow> bool" where
  "ok s \<longleftrightarrow> 200 \<le> s \<and> s \<le> 299"

text \<open>\<open>err instanceof Error ? err.message : fallback\<close>\<close>

fun message_or :: "thrown \<Rightarrow> jsstring \<Rightarrow> jsstring" where
  "message_or (ErrorObj nm msg) fallback = msg"
| "message_or NonError fallback = fallback"

text \<open>\<open>detail?.detail || fallback\<close>\<close>

fun detail_or :: "jsstring option \<Rightarrow> jsstring \<Rightarrow> jsstring" where
  "detail_or None fallback = fallback"
| "detail_or (Some d) fallback = (if d = [] then fallback else d)"

text \<open>The effect that runs after a render in which the log has changed:
  \<open>messagesRef.current = messages\<close>.\<close>

definition commit_render :: "state \<Rightarrow> state" where
  "commit_render st = st\<lparr>messagesRef := messages st\<rparr>"

section \<open>Token store (\<open>lib/auth.ts\<close>)\<close>

definition USER_TOKEN_KEY :: jsstring where
  "USER_TOKEN_KEY = js ''chat:userToken''"

definition SESSION_TOKEN_KEY :: jsstring where
  "SESSION_TOKEN_KEY = js ''chat:sessionToken''"

definition SESSION_ID_KEY :: jsstring where
  "SESSION_ID_KEY = js ''chat:sessionId''"

definition storeSessionToken ::
  "jsstring \<Rightarrow> jsstring \<Rightarrow> (jsstring \<rightharpoonup> jsstring) option \<Rightarrow> (jsstring \<rightharpoonup> jsstring) option" where
  "storeSessionToken tok sessionId w =
     (case w of
        None \<Rightarrow> None
      | Some ls \<Rightarrow>
          (let ls1 = ls(SESSION_TOKEN_KEY \<mapsto> tok)
           in Some (if sessionId \<noteq> [] then ls1(SESSION_ID_KEY \<mapsto> sessionId) else ls1)))"

definition clearStoredTokens ::
  "(jsstring \<rightharpoonup> jsstring) option \<Rightarrow> (jsstring \<rightharpoonup> jsstring) option" where
  "clearStoredTokens w =
     (case w of
        None \<Rightarrow> None
      | Some ls \<Rightarrow>
          Some (ls(USER_TOKEN_KEY := None, SESSION_TOKEN_KEY := None, SESSION_ID_KEY := None)))"

section \<open>The controller's operations\<close>

definition SESSION_NAME_MAX_LENGTH :: nat where
  "SESSION_NAME_MAX_LENGTH = 40"

text \<open>The string literal that \<open>deriveSessionName\<close> appends, as the source text has it:
  the three code units U+00E2, U+20AC and U+00A6 (what the bytes of U+2026 give when they
  are read as Windows-1252).\<close>

definition ELLIPSIS :: jsstring where
  "ELLIPSIS = [0xE2, 0x20AC, 0xA6]"

text \<open>\<open>s.replace(/\s+/g, " ")\<close>: every maximal run of white space becomes one space.\<close>

function replace_ws :: "jsstring \<Rightarrow> jsstring" where
  "replace_ws [] = []"
| "replace_ws (c # cs) =
     (if isWhiteSpace c then 0x20 # replace_ws (dropWhile isWhiteSpace cs)
      else c # replace_ws cs)"
  by pat_completeness auto
termination
  by (relation "measure length") (auto simp: length_dropWhile_le less_Suc_eq_le)

definition deriveSessionName :: "jsstring \<Rightarrow> jsstring" where
  "deriveSessionName text =
     (let trimmed = replace_ws (trim text) in
      if trimmed = [] then []
      else if length trimmed \<le> SESSION_NAME_MAX_LENGTH then trimmed
      else trimEnd (take SESSION_NAME_MAX_LENGTH trimmed) @ ELLIPSIS)"

definition stop :: "state \<Rightarrow> state" where
  "stop st =
     (case abortRef st of
        Some c \<Rightarrow> st\<lparr>aborted := insert c (aborted st), abortRef := None\<rparr>
      | None \<Rightarrow> st)\<lparr>isLoading := False\<rparr>"

definition logout :: "state \<Rightarrow> state" where
  "logout st =
     (stop st)\<lparr>localStorage := clearStoredTokens (localStorage st),
       sessionToken := None,
       userToken := None,
       sessions := [],
       currentSessionId := None,
       messages := [],
       error := None,
       historyLoadedRef := False\<rparr>"

definition SESSION_EXPIRED :: jsstring where
  "SESSION_EXPIRED = js ''Session expired. Please log in again.''"

text \<open>
  \<open>uuidv4\<close> is taken as the sequence of identifiers it returns: \<open>uuidv4 n\<close> is the result
  of call number \<open>n\<close>. The history body is \<open>{messages?: {role, content}[]}\<close>; \<open>None\<close>
  stands for a body without a \<open>messages\<close> array.
\<close>

fun assign_ids :: "(nat \<Rightarrow> jsstring) \<Rightarrow> nat \<Rightarrow> (role \<times> jsstring) list \<Rightarrow> ChatMessage list" where
  "assign_ids uuidv4 n [] = []"
| "assign_ids uuidv4 n ((r, c) # ms) =
     \<lparr>msg_id = uuidv4 n, role = r, content = c\<rparr> # assign_ids uuidv4 (Suc n) ms"

definition loadHistory ::
  "(nat \<Rightarrow> jsstring) \<Rightarrow> (role \<times> jsstring) list option response fetched \<Rightarrow> state \<Rightarrow> state" where
  "loadHistory uuidv4 res st =
     (case sessionToken st of
        None \<Rightarrow> st
      | Some tok \<Rightarrow>
          if tok = [] \<or> historyLoadedRef st then st
          else
            (let st1 = st\<lparr>historyLoadedRef := True, requests := requests st @ [GetMessages tok]\<rparr>
             in case res of
                  Failed err \<Rightarrow> st1\<lparr>error := Some (message_or err (js ''Failed to load history.''))\<rparr>
                | Replied r \<Rightarrow>
                    if status r = 401 \<or> status r = 403
                      then (logout st1)\<lparr>error := Some SESSION_EXPIRED\<rparr>
                    else if \<not> ok (status r)
                      then st1\<lparr>error := Some (detail_or (detail r) (js ''Failed to load chat history.''))\<rparr>
                    else (case data r of
                            Inl err \<Rightarrow> st1\<lparr>error := Some (message_or err (js ''Failed to load history.''))\<rparr>
                          | Inr None \<Rightarrow> st1
                          | Inr (Some []) \<Rightarrow> st1
                          | Inr (Some (m # ms)) \<Rightarrow>
                              st1\<lparr>messages := assign_ids uuidv4 (uuid_calls st1) (m # ms),
                                 uuid_calls := uuid_calls st1 + length (m # ms)\<rparr>)))"


text \<open>
  \<open>renameSession(session, name, options)\<close>; the flag is \<open>options?.updateList !== false\<close>.
  The result is the session returned (\<open>None\<close> for \<open>null\<close>) and the new state.
\<close>

definition renameSession ::
  "SessionItem response fetched \<Rightarrow> SessionItem \<Rightarrow> jsstring \<Rightarrow> bool \<Rightarrow> state \<Rightarrow> SessionItem option \<times> state" where
  "renameSession res session nm updateList st =
     (let trimmed = trim nm in
      if trimmed = [] then (Some session, st)
      else
        (let st1 = st\<lparr>requests := requests st @
                     [PatchName (session_id session) (access_token (token session)) trimmed]\<rparr>
         in case res of
              Failed err \<Rightarrow>
                (None, st1\<lparr>error := Some (message_or err (js ''Failed to rename session.''))\<rparr>)
            | Replied r \<Rightarrow>
                if \<not> ok (status r)
                  then (None, st1\<lparr>error := Some (detail_or (detail r) (js ''Failed to rename session.''))\<rparr>)
                else (case data r of
                        Inl err \<Rightarrow>
                          (None, st1\<lparr>error := Some (message_or err (js ''Failed to rename session.''))\<rparr>)
                      | Inr updated \<Rightarrow>
                          (Some updated,
                           if updateList
                             then st1\<lparr>sessions := map (\<lambda>item.
                                      if session_id item = session_id updated then updated else item)
                                    (sessions st1)\<rparr>
                           else st1))))"

text \<open>\<open>selectSession(session, options)\<close>; the flag is \<open>options?.preserveMessages\<close>.\<close>

definition selectSession :: "SessionItem \<Rightarrow> bool \<Rightarrow> state \<Rightarrow> state" where
  "selectSession session preserveMessages st =
     (let st1 = (stop st)\<lparr>currentSessionId := Some (session_id session),
                  sessionToken := Some (access_token (token session))\<rparr>;
          st2 = st1\<lparr>localStorage :=
                  storeSessionToken (access_token (token session)) (session_id session)
                    (localStorage st1)\<rparr>;
          st3 = (if \<not> preserveMessages then st2\<lparr>messages := []\<rparr> else st2)
      in st3\<lparr>historyLoadedRef := False\<rparr>)"

text \<open>\<open>createSession(name, options)\<close> with the responses to its two requests.\<close>

definition createSession ::
  "SessionItem response fetched \<Rightarrow> SessionItem response fetched \<Rightarrow> jsstring option \<Rightarrow> bool \<Rightarrow> state \<Rightarrow>
     SessionItem option \<times> state" where
  "createSession res_create res_rename nm preserveMessages st =
     (case userToken st of
        None \<Rightarrow> (None, st\<lparr>error := Some (js ''Please log in to create a session.'')\<rparr>)
      | Some utok \<Rightarrow>
          if utok = [] then (None, st\<lparr>error := Some (js ''Please log in to create a session.'')\<rparr>)
          else
            (let st1 = st\<lparr>isLoading := True, error := None,
                          requests := requests st @ [PostSession utok]\<rparr>
             in case res_create of
                  Failed err \<Rightarrow>
                    (None, st1\<lparr>error := Some (message_or err (js ''Failed to create session.'')),
                              isLoading := False\<rparr>)
                | Replied r \<Rightarrow>
                    if \<not> ok (status r)
                      then (None, st1\<lparr>error := Some (detail_or (detail r) (js ''Failed to create session.'')),
                                     isLoading := False\<rparr>)
                    else (case data r of
                            Inl err \<Rightarrow>
                              (None, st1\<lparr>error := Some (message_or err (js ''Failed to create session.'')),
                                        isLoading := False\<rparr>)
                          | Inr session \<Rightarrow>
                              (let (renamed, st2) =
                                     (if \<not> falsy nm
                                        then renameSession res_rename session (case nm of Some n \<Rightarrow> n | None \<Rightarrow> []) False st1
                                      else (None, st1));
                                   finalSession = (case renamed of Some s \<Rightarrow> s | None \<Rightarrow> session);
                                   st3 = st2\<lparr>sessions := finalSession # sessions st2\<rparr>;
                                   st4 = selectSession finalSession preserveMessages st3
                               in (Some finalSession, st4\<lparr>isLoading := False\<rparr>)))))"

section \<open>\<open>sendMessage\<close>\<close>

text \<open>
  The synchronous beginning of \<open>sendMessage\<close>, up to and including the optimistic
  \<open>setMessages\<close>: the text is validated, the error slot cleared, the loading flag set, and
  the two new messages are appended. It either returns from \<open>sendMessage\<close> or goes on with
  the trimmed text, the user message and the assistant message's identifier.
\<close>

datatype begun = Rejected state | Accepted jsstring ChatMessage jsstring state

definition optimistic_append :: "(nat \<Rightarrow> jsstring) \<Rightarrow> jsstring \<Rightarrow> state \<Rightarrow> begun" where
  "optimistic_append uuidv4 text st =
     (let trimmed = trim text in
      if trimmed = [] then Rejected st
      else if length trimmed > 3000
        then Rejected (st\<lparr>error := Some (js ''Message too long (max 3000 characters).'')\<rparr>)
      else
        (let st1 = st\<lparr>error := None, isLoading := True\<rparr>;
             userMessage = \<lparr>msg_id = uuidv4 (uuid_calls st1), role = User, content = trimmed\<rparr>;
             assistantId = uuidv4 (uuid_calls st1 + 1);
             assistantMessage = \<lparr>msg_id = assistantId, role = Assistant, content = []\<rparr>
         in Accepted trimmed userMessage assistantId
              (st1\<lparr>uuid_calls := uuid_calls st1 + 2,
                 messages := messages st1 @ [userMessage, assistantMessage]\<rparr>)))"

text \<open>The beginning as the provider with sessions, renaming and deletion has it: the
  guard is on the user token.\<close>

definition sendMessage_begin :: "(nat \<Rightarrow> jsstring) \<Rightarrow> jsstring \<Rightarrow> state \<Rightarrow> begun" where
  "sendMessage_begin uuidv4 text st =
     (if falsy (userToken st)
        then Rejected (st\<lparr>error := Some (js ''Please log in to start chatting.'')\<rparr>)
      else optimistic_append uuidv4 text st)"

text \<open>The beginning as \<open>src/providers/Stream.tsx\<close> has it: the guard is on the session
  token.\<close>

definition sendMessage_begin_tsx :: "(nat \<Rightarrow> jsstring) \<Rightarrow> jsstring \<Rightarrow> state \<Rightarrow> begun" where
  "sendMessage_begin_tsx uuidv4 text st =
     (if falsy (sessionToken st)
        then Rejected (st\<lparr>error := Some (js ''Please log in to start chatting.'')\<rparr>)
      else optimistic_append uuidv4 text st)"

text \<open>
  Finding the bearer of the stream request: a session is created when there is no session
  token; otherwise a current session without a name is renamed. The token, the current
  session identifier and the session list are the ones of the state in which
  \<open>sendMessage\<close> was called (\<open>st0\<close>). Both calls are awaited and wait for a request;
  while \<open>sendMessage\<close> waits, the render with the two new messages is committed and its
  effect copies the log into \<open>messagesRef.current\<close>. On the path that awaits nothing the
  ref still holds the log of the last render. The result is the bearer, or \<open>None\<close> when
  \<open>sendMessage\<close> returns here.
\<close>

definition resolve_session ::
  "SessionItem response fetched \<Rightarrow> SessionItem response fetched \<Rightarrow> state \<Rightarrow> jsstring \<Rightarrow> state \<Rightarrow> jsstring option \<times> state" where
  "resolve_session res_create res_rename st0 trimmed st =
     (if falsy (sessionToken st0)
        then (let (session, st1) =
                    createSession res_create res_rename (Some (deriveSessionName trimmed)) True
                      (commit_render st)
              in case session of
                   None \<Rightarrow> (None, st1\<lparr>isLoading := False, error := Some (js ''Unable to create a session.'')\<rparr>)
                 | Some s \<Rightarrow>
                     if access_token (token s) = []
                       then (None, st1\<lparr>isLoading := False, error := Some (js ''Unable to create a session.'')\<rparr>)
                     else (Some (access_token (token s)), st1))
      else (sessionToken st0,
            if falsy (currentSessionId st0) then st
            else (case find (\<lambda>session. Some (session_id session) = currentSessionId st0) (sessions st0) of
                    None \<Rightarrow> st
                  | Some currentSession \<Rightarrow>
                      if trim (name currentSession) = []
                        then snd (renameSession res_rename currentSession (deriveSessionName trimmed) True
                                    (commit_render st))
                      else st)))"

text \<open>\<open>new AbortController()\<close>, the assignment to \<open>abortRef.current\<close>, and the call of
  \<open>fetch\<close> for the stream, with the new controller's signal.\<close>

definition issue_stream :: "jsstring \<Rightarrow> ChatMessage \<Rightarrow> state \<Rightarrow> nat \<times> state" where
  "issue_stream activeSessionToken userMessage st =
     (let controller = controllers st;
          st1 = st\<lparr>controllers := controllers st + 1, abortRef := Some controller\<rparr>
      in (controller,
          st1\<lparr>requests := requests st1 @
                [PostStream activeSessionToken
                   (map (\<lambda>m. (role m, content m)) (messagesRef st1 @ [userMessage]))
                   controller]\<rparr>))"

text \<open>\<open>sendMessage\<close> from its call to the point where it waits for the response of the
  stream request.\<close>

datatype started = Returned state | Streaming jsstring nat state

definition sendMessage_start ::
  "(nat \<Rightarrow> jsstring) \<Rightarrow> SessionItem response fetched \<Rightarrow> SessionItem response fetched \<Rightarrow> jsstring \<Rightarrow> state \<Rightarrow> started" where
  "sendMessage_start uuidv4 res_create res_rename text st =
     (case sendMessage_begin uuidv4 text st of
        Rejected st1 \<Rightarrow> Returned st1
      | Accepted trimmed userMessage assistantId st1 \<Rightarrow>
          (case resolve_session res_create res_rename st trimmed st1 of
             (None, st2) \<Rightarrow> Returned st2
           | (Some activeSessionToken, st2) \<Rightarrow>
               (let (controller, st3) = issue_stream activeSessionToken userMessage st2
                in Streaming assistantId controller st3)))"


fun started_state :: "started \<Rightarrow> state" where
  "started_state (Returned st) = st"
| "started_state (Streaming assistantId controller st) = st"

text \<open>
  The streams in flight: the controllers of the stream requests issued so far whose
  \<open>abort()\<close> has not been called and whose \<open>sendMessage\<close> has not run to its end.
\<close>

fun stream_signals :: "request list \<Rightarrow> nat list" where
  "stream_signals [] = []"
| "stream_signals (PostStream tok msgs controller # rs) = controller # stream_signals rs"
| "stream_signals (r # rs) = stream_signals rs"

definition in_flight :: "state \<Rightarrow> nat list" where
  "in_flight st =
     filter (\<lambda>c. c \<notin> aborted st \<and> c \<notin> settled st) (stream_signals (requests st))"

section \<open>The stream consumer\<close>

text \<open>
  The value of \<open>data\<close> after the \<open>try\<close>/\<open>catch\<close> around \<open>JSON.parse\<close> has the declared
  type \<open>{ content?: string; done?: boolean } | null\<close>, and the loop reads nothing of it
  but whether it is falsy and its properties \<open>done\<close> and \<open>content\<close>. \<open>JSON.parse\<close> is
  the platform's parser and is a parameter of the consumer: it throws (\<open>Inl\<close>), or it
  returns \<open>null\<close> (\<open>Inr None\<close>), or a value of the declared type with the two properties
  it has.
\<close>

record event_data =
  content_field :: "jsstring option"
  done_field :: "bool option"

type_synonym json_parse = "jsstring \<Rightarrow> thrown + event_data option"

text \<open>What the loop does with the decoded payload of a line, once \<open>data\<close> is known not to
  be null: the \<open>done\<close> case and the \<open>content\<close> case.\<close>

definition apply_data :: "jsstring \<Rightarrow> state \<Rightarrow> event_data \<Rightarrow> state" where
  "apply_data assistantId st d =
     (if done_field d = Some True then st\<lparr>isLoading := False\<rparr>
      else (case content_field d of
              None \<Rightarrow> st
            | Some c \<Rightarrow>
                if c = [] then st
                else st\<lparr>messages := map (\<lambda>msg.
                         if msg_id msg = assistantId
                           then msg\<lparr>content := content msg @ c\<rparr>
                         else msg) (messages st)\<rparr>))"

text \<open>The body of the loop over the lines of one event, for one line.\<close>

definition process_line :: "json_parse \<Rightarrow> jsstring \<Rightarrow> state \<Rightarrow> jsstring \<Rightarrow> state" where
  "process_line JSON_parse assistantId st line =
     (if \<not> startsWith line (js ''data:'') then st
      else
        (let payload = trim (drop 5 line) in
         if payload = [] then st
         else
           (let data = (case JSON_parse payload of Inl err \<Rightarrow> None | Inr v \<Rightarrow> v) in
            case data of
              None \<Rightarrow> st
            | Some d \<Rightarrow> apply_data assistantId st d)))"

text \<open>The body of the loop over the events of one chunk, for one event.\<close>

definition process_part :: "json_parse \<Rightarrow> jsstring \<Rightarrow> state \<Rightarrow> jsstring \<Rightarrow> state" where
  "process_part JSON_parse assistantId st part =
     foldl (process_line JSON_parse assistantId) st (split part (js ''\<newline>''))"

text \<open>
  The read loop. The reads of the body are given as a list of what \<open>reader.read()\<close>
  resolves to; when the list is used up the next read has not resolved and the loop is
  still waiting.
\<close>

datatype loop_result = Completed state | Threw thrown state | Waiting state

fun read_loop ::
  "json_parse \<Rightarrow> jsstring \<Rightarrow> decoder \<Rightarrow> jsstring \<Rightarrow> read_result list \<Rightarrow> state \<Rightarrow> loop_result" where
  "read_loop JSON_parse assistantId decoder buffer [] st = Waiting st"
| "read_loop JSON_parse assistantId decoder buffer (Done # reads) st = Completed st"
| "read_loop JSON_parse assistantId decoder buffer (Read_rejected err # reads) st = Threw err st"
| "read_loop JSON_parse assistantId decoder buffer (Value v # reads) st =
     (let (text, decoder1) = decode decoder v;
          buffer1 = buffer @ text;
          parts = split buffer1 (js ''\<newline>\<newline>'');
          buffer2 = (if parts = [] then [] else last parts);
          parts1 = butlast parts
      in read_loop JSON_parse assistantId decoder1 buffer2 reads
           (foldl (process_part JSON_parse assistantId) st parts1))"

text \<open>The \<open>catch\<close> and the \<open>finally\<close> of \<open>sendMessage\<close>.\<close>

fun catch_stream :: "thrown \<Rightarrow> state \<Rightarrow> state" where
  "catch_stream (ErrorObj nm msg) st =
     (if nm \<noteq> js ''AbortError'' then st\<lparr>error := Some msg\<rparr> else st)"
| "catch_stream NonError st = st\<lparr>error := Some (js ''Streaming failed.'')\<rparr>"

definition finally_stream :: "nat \<Rightarrow> state \<Rightarrow> state" where
  "finally_stream controller st =
     st\<lparr>isLoading := False, abortRef := None, settled := insert controller (settled st)\<rparr>"

text \<open>
  \<open>sendMessage\<close> from the response of the stream request on. The flag of the result says
  whether \<open>sendMessage\<close> has run to its end; it has not while a read is outstanding.
\<close>

definition sendMessage_response ::
  "json_parse \<Rightarrow> jsstring \<Rightarrow> nat \<Rightarrow> stream_response fetched \<Rightarrow> state \<Rightarrow> bool \<times> state" where
  "sendMessage_response JSON_parse assistantId controller res st =
     (case res of
        Failed err \<Rightarrow> (True, finally_stream controller (catch_stream err st))
      | Replied r \<Rightarrow>
          if stream_status r = 401 \<or> stream_status r = 403
            then (True, finally_stream controller ((logout st)\<lparr>error := Some SESSION_EXPIRED\<rparr>))
          else (case (if ok (stream_status r) then body r else None) of
                  None \<Rightarrow>
                    (True, finally_stream controller
                       (catch_stream
                          (ErrorObj (js ''Error'')
                             (detail_or (stream_detail r) (js ''Failed to start stream.''))) st))
                | Some reads \<Rightarrow>
                    (case read_loop JSON_parse assistantId new_decoder [] reads st of
                       Completed st1 \<Rightarrow> (True, finally_stream controller st1)
                     | Threw err st1 \<Rightarrow> (True, finally_stream controller (catch_stream err st1))
                     | Waiting st1 \<Rightarrow> (False, st1))))"

section \<open>Example inputs\<close>

text \<open>
  A parser for the examples: it knows what \<open>JSON.parse\<close> returns on four payloads and
  throws on every other text. It is used on these payloads and on texts that are not JSON.
\<close>

definition example_parse :: json_parse where
  "example_parse s =
     (if s = js ''{\"content\":\"ab\"}''
        then Inr (Some \<lparr>content_field = Some (js ''ab''), done_field = None\<rparr>)
      else if s = js ''{\"content\":\"cd\"}''
        then Inr (Some \<lparr>content_field = Some (js ''cd''), done_field = None\<rparr>)
      else if s = js ''{\"done\":true}''
        then Inr (Some \<lparr>content_field = None, done_field = Some True\<rparr>)
      else if s = js ''{\"content\":\"x\",\"done\":true}''
        then Inr (Some \<lparr>content_field = Some (js ''x''), done_field = Some True\<rparr>)
      else Inl (ErrorObj (js ''SyntaxError'') (js ''Unexpected token'')))"

text \<open>An identifier source for the examples: \<open>m0\<close>, \<open>m1\<close>, \<open>m2\<close>, ...\<close>

definition example_uuid :: "nat \<Rightarrow> jsstring" where
  "example_uuid n = js ''m'' @ [of_nat (48 + n)]"

text \<open>The state of a freshly mounted provider, and one of a user who is logged in and has
  an active session.\<close>

definition initial_state :: state where
  "initial_state =
     \<lparr>messages = [], messagesRef = [], isLoading = False, error = None, sessions = [],
      sessionsLoading = False, currentSessionId = None, userToken = None, sessionToken = None,
      historyLoadedRef = False, abortRef = None, localStorage = Some Map.empty,
      controllers = 0, aborted = {}, settled = {}, uuid_calls = 0, requests = []\<rparr>"

definition example_session :: SessionItem where
  "example_session =
     \<lparr>session_id = js ''s1'', name = js ''first chat'',
      token = \<lparr>access_token = js ''tok-s1'', expires_at = js ''2030-01-01''\<rparr>\<rparr>"

definition active_state :: state where
  "active_state =
     initial_state\<lparr>userToken := Some (js ''tok-u''), sessionToken := Some (js ''tok-s1''),
       currentSessionId := Some (js ''s1''), sessions := [example_session],
       localStorage := Some [USER_TOKEN_KEY \<mapsto> js ''tok-u'', SESSION_TOKEN_KEY \<mapsto> js ''tok-s1'',
                             SESSION_ID_KEY \<mapsto> js ''s1'']\<rparr>"

text \<open>A user who has logged in and has no session yet, with the responses of the server
  to the creation of a session and to its renaming.\<close>

definition logged_in_state :: state where
  "logged_in_state =
     initial_state\<lparr>userToken := Some (js ''tok-u''),
       localStorage := Some [USER_TOKEN_KEY \<mapsto> js ''tok-u'']\<rparr>"

definition created_response :: "SessionItem response fetched" where
  "created_response =
     Replied \<lparr>status = 200, detail = None,
       data = Inr \<lparr>session_id = js ''s2'', name = [],
                   token = \<lparr>access_token = js ''tok-s2'', expires_at = js ''2030-01-01''\<rparr>\<rparr>\<rparr>"

definition renamed_response :: "SessionItem response fetched" where
  "renamed_response =
     Replied \<lparr>status = 200, detail = None,
       data = Inr \<lparr>session_id = js ''s2'', name = js ''hi'',
                   token = \<lparr>access_token = js ''tok-s2'', expires_at = js ''2030-01-01''\<rparr>\<rparr>\<rparr>"

text \<open>The log in the middle of a reply: the user's message and the assistant's, still
  empty.\<close>

definition streaming_state :: state where
  "streaming_state =
     active_state\<lparr>isLoading := True, historyLoadedRef := True, abortRef := Some 0, controllers := 1,
       uuid_calls := 2,
       messages := [\<lparr>msg_id = js ''m0'', role = User, content = js ''hi''\<rparr>,
                    \<lparr>msg_id = js ''m1'', role = Assistant, content = []\<rparr>]\<rparr>"


text \<open>
  A run with two sends. The user of \<open>active_state\<close> sends \<open>hi\<close>; the response of the
  stream request arrives and its first chunk is the event \<open>data: {"done":true}\<close>, after
  which the body stays open (\<open>one_stream_state\<close>). Then the user sends \<open>again\<close>
  (\<open>two_streams_state\<close>).
\<close>

definition one_stream_state :: state where
  "one_stream_state =
     snd (sendMessage_response example_parse (js ''m1'') 0
            (Replied \<lparr>stream_status = 200, stream_detail = None,
                      body = Some [Value (bytes ''data: {\"done\":true}\<newline>\<newline>'')]\<rparr>)
            (commit_render (started_state
               (sendMessage_start example_uuid (Failed NonError) (Failed NonError) (js ''hi'')
                  active_state))))"

definition two_streams_state :: state where
  "two_streams_state =
     started_state
       (sendMessage_start example_uuid (Failed NonError) (Failed NonError) (js ''again'')
          one_stream_state)"

section \<open>Literals\<close>

lemma js_Nil_iff [simp]: "js s = [] \<longleftrightarrow> s = []"
  by (simp add: js_def)

lemma length_js [simp]: "length (js s) = length s"
  by (simp add: js_def)

lemma trim_hi: "trim (js ''hi'') = js ''hi''"
  by (simp add: trim_def trimStart_def trimEnd_def isWhiteSpace_def js_def)

lemma trim_hi_padded: "trim (js '' hi '') = js ''hi''"
  by (simp add: trim_def trimStart_def trimEnd_def isWhiteSpace_def js_def)

lemma trim_again: "trim (js ''again'') = js ''again''"
  by (simp add: trim_def trimStart_def trimEnd_def isWhiteSpace_def js_def)

lemma trim_blank: "trim (js ''   '') = []"
  by (simp add: trim_def trimStart_def trimEnd_def isWhiteSpace_def js_def)

lemma trim_first_chat: "trim (js ''first chat'') \<noteq> []"
  by (simp add: trim_def trimStart_def trimEnd_def isWhiteSpace_def js_def)

lemma derive_hi: "deriveSessionName (js ''hi'') = js ''hi''"
  by (simp add: deriveSessionName_def trim_def trimStart_def trimEnd_def isWhiteSpace_def js_def
        SESSION_NAME_MAX_LENGTH_def)

lemma example_uuids:
  "example_uuid 0 = js ''m0''" "example_uuid 1 = js ''m1''"
  "example_uuid 2 = js ''m2''" "example_uuid 3 = js ''m3''"
  "example_uuid (Suc 0) = js ''m1''" "example_uuid (Suc (Suc 0)) = js ''m2''"
  by (simp_all add: example_uuid_def js_def)

section \<open>Splitting and chunk boundaries\<close>

lemma split_from_Nil [simp]: "split_from sep cur [] = [cur]"
  by (simp add: split_from.simps)

lemma split_from_Cons:
  "split_from sep cur (c # cs) =
     (if sep \<noteq> [] \<and> startsWith (c # cs) sep then cur # split_from sep [] (drop (length sep) (c # cs))
      else split_from sep (cur @ [c]) cs)"
  by (subst split_from.simps) simp

lemma split_from_acc:
  "split_from sep cur s = (cur @ hd (split_from sep [] s)) # tl (split_from sep [] s)"
proof (induction s arbitrary: cur)
  case Nil
  show ?case by simp
next
  case (Cons c cs)
  show ?case
  proof (cases "sep \<noteq> [] \<and> startsWith (c # cs) sep")
    case True
    then show ?thesis by (simp add: split_from_Cons)
  next
    case False
    have a: "split_from sep (cur @ [c]) cs = ((cur @ [c]) @ hd (split_from sep [] cs)) # tl (split_from sep [] cs)"
      by (rule Cons.IH)
    have b: "split_from sep [c] cs = ([c] @ hd (split_from sep [] cs)) # tl (split_from sep [] cs)"
      by (rule Cons.IH)
    show ?thesis using False a b by (simp add: split_from_Cons)
  qed
qed

lemma split_from_not_Nil [simp]: "split_from sep cur s \<noteq> []"
  by (subst split_from_acc) simp

lemma split_from_short:
  "length s < length sep \<Longrightarrow> split_from sep cur s = [cur @ s]"
proof (induction s arbitrary: cur)
  case Nil
  show ?case by simp
next
  case (Cons c cs)
  have "\<not> startsWith (c # cs) sep"
    using Cons.prems by (auto simp: startsWith_def)
  moreover have "split_from sep (cur @ [c]) cs = [(cur @ [c]) @ cs]"
    using Cons.prems by (intro Cons.IH) simp
  ultimately show ?case by (simp add: split_from_Cons)
qed

lemma startsWith_length: "startsWith s p \<Longrightarrow> length p \<le> length s"
proof -
  assume "startsWith s p"
  then have "length (take (length p) s) = length p"
    by (simp add: startsWith_def)
  then show ?thesis by simp
qed

lemma startsWith_append:
  "length p \<le> length s \<Longrightarrow> startsWith (s @ y) p = startsWith s p"
  by (simp add: startsWith_def)

lemma split_from_single:
  "split_from sep cur s = [p] \<Longrightarrow> p = cur @ s"
proof (induction s arbitrary: cur)
  case Nil
  then show ?case by simp
next
  case (Cons c cs)
  show ?case
  proof (cases "sep \<noteq> [] \<and> startsWith (c # cs) sep")
    case True
    then show ?thesis using Cons.prems by (simp add: split_from_Cons)
  next
    case False
    then have "split_from sep (cur @ [c]) cs = [p]"
      using Cons.prems by (auto simp add: split_from_Cons)
    then show ?thesis using Cons.IH by fastforce
  qed
qed

lemma split_from_chunks:
  "split_from sep [] (x @ y) =
     butlast (split_from sep [] x) @ split_from sep [] (last (split_from sep [] x) @ y)"
proof (induction x rule: length_induct)
  case (1 x)
  show ?case
  proof (cases x)
    case Nil
    then show ?thesis by simp
  next
    case (Cons c cs)
    show ?thesis
    proof (cases "sep \<noteq> [] \<and> startsWith x sep")
      case True
      then have len: "length sep \<le> length x" "0 < length sep"
        by (auto dest: startsWith_length)
      have sw: "startsWith (x @ y) sep"
        using True len by (simp add: startsWith_append)
      let ?r = "drop (length sep) x"
      have "length ?r < length x" using len Cons by simp
      then have IH: "split_from sep [] (?r @ y) =
         butlast (split_from sep [] ?r) @ split_from sep [] (last (split_from sep [] ?r) @ y)"
        using "1.IH" by blast
      have d: "drop (length sep) (x @ y) = ?r @ y"
        using len by simp
      have "x @ y \<noteq> []" using Cons by simp
      then have lhs: "split_from sep [] (x @ y) = [] # split_from sep [] (?r @ y)"
        using True sw d by (subst split_from.simps) simp
      have rhs: "split_from sep [] x = [] # split_from sep [] ?r"
        using True Cons by (simp add: split_from_Cons)
      show ?thesis by (simp add: lhs rhs IH)
    next
      case False
      note nsw = False
      show ?thesis
      proof (cases "sep \<noteq> [] \<and> startsWith (x @ y) sep")
        case True
        then have "\<not> length sep \<le> length x"
          using nsw startsWith_append [of sep x y] by blast
        then have "length x < length sep" by simp
        then have "split_from sep [] x = [x]"
          by (simp add: split_from_short)
        then show ?thesis by simp
      next
        case False
        let ?L = "split_from sep [] cs"
        have IH: "split_from sep [] (cs @ y) = butlast ?L @ split_from sep [] (last ?L @ y)"
          using "1.IH" Cons by simp
        have lhs: "split_from sep [] (x @ y) = split_from sep [c] (cs @ y)"
          using False Cons by (auto simp add: split_from_Cons)
        have rhs: "split_from sep [] x = split_from sep [c] cs"
          using nsw Cons by (auto simp add: split_from_Cons)
        obtain p ps where L: "?L = p # ps"
          by (cases ?L) simp_all
        show ?thesis
        proof (cases ps)
          case Nil
          then have "p = cs" using L split_from_single [of sep "[]" cs p] by simp
          then have "split_from sep [] x = [x]"
            using rhs L Nil Cons by (simp add: split_from_acc [of sep "[c]"])
          then show ?thesis by simp
        next
          case (Cons q qs)
          have "split_from sep [c] (cs @ y) = (c # p) # butlast ps @ split_from sep [] (last ps @ y)"
            using IH L Cons by (simp add: split_from_acc [of sep "[c]"])
          moreover have "split_from sep [c] cs = (c # p) # ps"
            using L by (simp add: split_from_acc [of sep "[c]"])
          ultimately show ?thesis using lhs rhs Cons by simp
        qed
      qed
    qed
  qed
qed


lemma split_not_Nil: "sep \<noteq> [] \<Longrightarrow> split s sep \<noteq> []"
  by (simp add: split_def)

lemma split_chunks:
  "sep \<noteq> [] \<Longrightarrow>
     split (x @ y) sep = butlast (split x sep) @ split (last (split x sep) @ y) sep"
  using split_from_chunks [of sep x y] by (simp add: split_def)

lemma split_last_piece:
  assumes "sep \<noteq> []"
  shows "split (last (split x sep)) sep = [last (split x sep)]"
proof -
  have "split x sep = butlast (split x sep) @ split (last (split x sep)) sep"
    using split_chunks [OF assms, of x "[]"] by simp
  moreover have "split x sep = butlast (split x sep) @ [last (split x sep)]"
    using split_not_Nil [OF assms, of x] by simp
  ultimately show ?thesis
    by (metis same_append_eq)
qed

lemma split_from_no_sep:
  "\<not> includes_str f sep \<Longrightarrow> split_from sep cur f = [cur @ f]"
proof (induction f arbitrary: cur)
  case Nil
  show ?case by simp
next
  case (Cons c cs)
  then have "\<not> startsWith (c # cs) sep" and "\<not> includes_str cs sep"
    by simp_all
  then show ?case
    using Cons.IH [of "cur @ [c]"] by (simp add: split_from_Cons)
qed

lemma startsWith_blank_line:
  "startsWith s (js ''\<newline>\<newline>'') \<longleftrightarrow> (\<exists>r. s = 0x0A # 0x0A # r)"
  by (cases s; cases "tl s") (auto simp: startsWith_def js_def)

lemma startsWith_newline:
  "startsWith s (js ''\<newline>'') \<longleftrightarrow> (\<exists>r. s = 0x0A # r)"
  by (cases s) (auto simp: startsWith_def js_def)

lemma split_from_fragment:
  assumes "\<not> includes_str f (js ''\<newline>\<newline>'')" and "\<not> startsWith f (js ''\<newline>'')"
  shows "butlast (split_from (js ''\<newline>\<newline>'') cur (s @ f)) = butlast (split_from (js ''\<newline>\<newline>'') cur s)"
proof (induction s arbitrary: cur rule: length_induct)
  case (1 s)
  let ?sep = "js ''\<newline>\<newline>''"
  have sep: "?sep \<noteq> []" "length ?sep = 2" by (simp_all add: js_def)
  show ?case
  proof (cases s)
    case Nil
    then show ?thesis using assms(1) by (simp add: split_from_no_sep)
  next
    case (Cons c cs)
    show ?thesis
    proof (cases "startsWith s ?sep")
      case True
      then obtain r where r: "s = 0x0A # 0x0A # r"
        by (auto simp: startsWith_blank_line)
      then have sw: "startsWith (s @ f) ?sep"
        by (simp add: startsWith_blank_line)
      have "length r < length s" using r by simp
      then have IH: "butlast (split_from ?sep [] (r @ f)) = butlast (split_from ?sep [] r)"
        using "1.IH" by blast
      have "split_from ?sep cur (s @ f) = cur # split_from ?sep [] (r @ f)"
        using sw sep r by (simp add: split_from_Cons)
      moreover have "split_from ?sep cur s = cur # split_from ?sep [] r"
        using True sep r by (simp add: split_from_Cons)
      ultimately show ?thesis using IH by simp
    next
      case False
      have nsw: "\<not> startsWith (s @ f) ?sep"
      proof
        assume "startsWith (s @ f) ?sep"
        then obtain r where r: "s @ f = 0x0A # 0x0A # r"
          by (auto simp: startsWith_blank_line)
        show False
        proof (cases cs)
          case Nil
          then have "f = 0x0A # r" using r Cons by simp
          then show False using assms(2) by (simp add: startsWith_newline)
        next
          case (Cons c' cs')
          then have "s = 0x0A # 0x0A # cs'" using r \<open>s = c # cs\<close> by simp
          then show False using False by (simp add: startsWith_blank_line)
        qed
      qed
      have "length cs < length s" using Cons by simp
      then have IH: "butlast (split_from ?sep (cur @ [c]) (cs @ f)) = butlast (split_from ?sep (cur @ [c]) cs)"
        using "1.IH" by blast
      have "split_from ?sep cur (s @ f) = split_from ?sep (cur @ [c]) (cs @ f)"
        using nsw Cons by (simp add: split_from_Cons)
      moreover have "split_from ?sep cur s = split_from ?sep (cur @ [c]) cs"
        using False Cons by (simp add: split_from_Cons)
      ultimately show ?thesis using IH by simp
    qed
  qed
qed

lemma read_loop_chunks:
  assumes "split buf (js ''\<newline>\<newline>'') = [buf]"
  shows "read_loop P aid d buf (map Value vs @ [Done]) st =
     Completed (foldl (process_part P aid) st
       (butlast (split (buf @ decode_chunks d vs) (js ''\<newline>\<newline>''))))"
  using assms
proof (induction vs arbitrary: d buf st)
  case Nil
  then show ?case by simp
next
  case (Cons v vs)
  obtain decoded d1 where dec: "decode d v = (decoded, d1)"
    by (cases "decode d v")
  let ?sep = "js ''\<newline>\<newline>''"
  have sep: "?sep \<noteq> []" by (simp add: js_def)
  let ?parts = "split (buf @ decoded) ?sep"
  have ne: "?parts \<noteq> []" using sep by (rule split_not_Nil)
  have step: "read_loop P aid d buf (map Value (v # vs) @ [Done]) st =
      read_loop P aid d1 (last ?parts) (map Value vs @ [Done])
        (foldl (process_part P aid) st (butlast ?parts))"
    using dec ne by (simp add: Let_def)
  have inv: "split (last ?parts) ?sep = [last ?parts]"
    using sep by (rule split_last_piece)
  have "split ((buf @ decoded) @ decode_chunks d1 vs) ?sep =
      butlast ?parts @ split (last ?parts @ decode_chunks d1 vs) ?sep"
    using sep by (rule split_chunks)
  moreover have "split (last ?parts @ decode_chunks d1 vs) ?sep \<noteq> []"
    using sep by (rule split_not_Nil)
  ultimately have "butlast (split (buf @ decode_chunks d (v # vs)) ?sep) =
      butlast ?parts @ butlast (split (last ?parts @ decode_chunks d1 vs) ?sep)"
    using dec by (simp add: butlast_append)
  then show ?case
    using step Cons.IH [OF inv, of d1] by simp
qed

subsection \<open>ASCII bytes are decoded to themselves\<close>

lemma utf8_lead_ascii: "b \<le> 0x7F \<Longrightarrow> utf8_lead d b = ([unat b], d)"
  by (simp add: utf8_lead_def)

lemma run_handler_ascii:
  "bytes_needed d = 0 \<Longrightarrow> \<forall>b\<in>set v. b \<le> 0x7F \<Longrightarrow> run_handler d v = (map unat v, d)"
  by (induction v) (simp_all add: utf8_handler_def utf8_lead_ascii)

lemma unat_byte: "unat (b :: byte) < 256"
  using unsigned_less [of b, where 'a = nat] by simp

lemma code_units_ascii: "code_units (unat b) = [ucast (b :: byte)]"
  using unat_byte [of b] by (simp add: code_units_def)

lemma serialize_ascii:
  "\<forall>b\<in>set v. b \<le> 0x7F \<Longrightarrow>
     serialize d (map unat (v :: byte list)) = (map ucast v, d\<lparr>bom_seen := bom_seen d \<or> v \<noteq> []\<rparr>)"
proof (induction v arbitrary: d)
  case Nil
  show ?case by simp
next
  case (Cons b v)
  have nb: "unat b \<noteq> 0xFEFF" using unat_byte [of b] by simp
  show ?case using Cons nb by (simp add: code_units_ascii)
qed

lemma decode_ascii:
  assumes "bytes_needed d = 0" and "\<forall>b\<in>set v. b \<le> 0x7F"
  shows "decode d v = (map ucast v, d\<lparr>bom_seen := bom_seen d \<or> v \<noteq> []\<rparr>)"
  using assms by (simp add: decode_def run_handler_ascii serialize_ascii)

lemma decode_chunks_ascii:
  "bytes_needed d = 0 \<Longrightarrow> \<forall>v\<in>set vs. \<forall>b\<in>set v. b \<le> 0x7F \<Longrightarrow>
     decode_chunks d vs = map ucast (concat vs)"
  by (induction vs arbitrary: d) (simp_all add: decode_ascii)



section \<open>Events of the stream\<close>

lemma read_loop_event:
  assumes "bytes_needed dec = 0" and "\<forall>b\<in>set v. b \<le> 0x7F"
    and "split (map ucast v) (js ''\<newline>\<newline>'') = [part, []]"
  shows "read_loop P aid dec [] (Value v # reads) st =
           read_loop P aid (dec\<lparr>bom_seen := bom_seen dec \<or> v \<noteq> []\<rparr>) [] reads
             (process_part P aid st part)"
  using assms by (simp add: decode_ascii)

lemma read_loop_stops:
  "read_loop P aid d buf reads st = Completed st' \<Longrightarrow> Done \<in> set reads"
  by (induction P aid d buf reads st rule: read_loop.induct)
     (auto simp: Let_def split: prod.splits)

lemma split_example:
  "split (js ''data: {\"content\":\"ab\"}\<newline>\<newline>data: {\"content\":\"cd\"}\<newline>\<newline>'') (js ''\<newline>\<newline>'')
    = [js ''data: {\"content\":\"ab\"}'', js ''data: {\"content\":\"cd\"}'', []]"
  by (simp add: split_def js_def split_from_Cons startsWith_def)

lemma split_event_ab:
  "split (map ucast (bytes ''data: {\"content\":\"ab\"}\<newline>\<newline>'')) (js ''\<newline>\<newline>'')
    = [js ''data: {\"content\":\"ab\"}'', []]"
  by (simp add: bytes_def split_def js_def split_from_Cons startsWith_def)

lemma ascii_event_ab:
  "\<forall>b\<in>set (bytes ''data: {\"content\":\"ab\"}\<newline>\<newline>''). b \<le> 0x7F"
  by (simp add: bytes_def)

lemma part_ab:
  assumes "P (js ''{\"content\":\"ab\"}'') =
             Inr (Some \<lparr>content_field = Some (js ''ab''), done_field = None\<rparr>)"
  shows "process_part P aid s (js ''data: {\"content\":\"ab\"}'') =
     s\<lparr>messages := map (\<lambda>msg. if msg_id msg = aid then msg\<lparr>content := content msg @ js ''ab''\<rparr> else msg)
          (messages s)\<rparr>"
proof -
  have ln: "split (js ''data: {\"content\":\"ab\"}'') (js ''\<newline>'') = [js ''data: {\"content\":\"ab\"}'']"
    by (simp add: split_def js_def split_from_Cons startsWith_def)
  have sw: "startsWith (js ''data: {\"content\":\"ab\"}'') (js ''data:'')"
    by (simp add: startsWith_def js_def)
  have pl: "trim (drop 5 (js ''data: {\"content\":\"ab\"}'')) = js ''{\"content\":\"ab\"}''"
    by (simp add: trim_def trimStart_def trimEnd_def isWhiteSpace_def js_def)
  have ne: "js ''{\"content\":\"ab\"}'' \<noteq> []" "js ''ab'' \<noteq> []"
    by (simp_all add: js_def)
  show ?thesis
    by (simp add: process_part_def ln process_line_def apply_data_def sw pl ne assms)
qed

lemma part_cd:
  assumes "P (js ''{\"content\":\"cd\"}'') =
             Inr (Some \<lparr>content_field = Some (js ''cd''), done_field = None\<rparr>)"
  shows "process_part P aid s (js ''data: {\"content\":\"cd\"}'') =
     s\<lparr>messages := map (\<lambda>msg. if msg_id msg = aid then msg\<lparr>content := content msg @ js ''cd''\<rparr> else msg)
          (messages s)\<rparr>"
proof -
  have ln: "split (js ''data: {\"content\":\"cd\"}'') (js ''\<newline>'') = [js ''data: {\"content\":\"cd\"}'']"
    by (simp add: split_def js_def split_from_Cons startsWith_def)
  have sw: "startsWith (js ''data: {\"content\":\"cd\"}'') (js ''data:'')"
    by (simp add: startsWith_def js_def)
  have pl: "trim (drop 5 (js ''data: {\"content\":\"cd\"}'')) = js ''{\"content\":\"cd\"}''"
    by (simp add: trim_def trimStart_def trimEnd_def isWhiteSpace_def js_def)
  have ne: "js ''{\"content\":\"cd\"}'' \<noteq> []" "js ''cd'' \<noteq> []"
    by (simp_all add: js_def)
  show ?thesis
    by (simp add: process_part_def ln process_line_def apply_data_def sw pl ne assms)
qed

lemma split_event_done:
  "split (map ucast (bytes ''data: {\"done\":true}\<newline>\<newline>'')) (js ''\<newline>\<newline>'')
     = [js ''data: {\"done\":true}'', []]"
  by (simp add: bytes_def split_def js_def split_from_Cons startsWith_def)

lemma ascii_event_done:
  "\<forall>b\<in>set (bytes ''data: {\"done\":true}\<newline>\<newline>''). b \<le> 0x7F"
  by (simp add: bytes_def)

lemma part_done:
  assumes "P (js ''{\"done\":true}'') = Inr (Some d)" and "done_field d = Some True"
  shows "process_part P aid s (js ''data: {\"done\":true}'') = s\<lparr>isLoading := False\<rparr>"
proof -
  have ln: "split (js ''data: {\"done\":true}'') (js ''\<newline>'') = [js ''data: {\"done\":true}'']"
    by (simp add: split_def js_def split_from_Cons startsWith_def)
  have sw: "startsWith (js ''data: {\"done\":true}'') (js ''data:'')"
    by (simp add: startsWith_def js_def)
  have pl: "trim (drop 5 (js ''data: {\"done\":true}'')) = js ''{\"done\":true}''"
    by (simp add: trim_def trimStart_def trimEnd_def isWhiteSpace_def js_def)
  show ?thesis
    using assms by (simp add: process_part_def ln process_line_def apply_data_def sw pl)
qed

lemma example_parse_ab:
  "example_parse (js ''{\"content\":\"ab\"}'') =
     Inr (Some \<lparr>content_field = Some (js ''ab''), done_field = None\<rparr>)"
  by (simp add: example_parse_def)

lemma example_parse_cd:
  "example_parse (js ''{\"content\":\"cd\"}'') =
     Inr (Some \<lparr>content_field = Some (js ''cd''), done_field = None\<rparr>)"
  by (simp add: example_parse_def js_def)

lemma example_parse_done:
  "example_parse (js ''{\"done\":true}'') =
     Inr (Some \<lparr>content_field = None, done_field = Some True\<rparr>)"
  by (simp add: example_parse_def js_def)


text \<open>The read of the event \<open>data: {"content":"ab"}\<close> followed by end of data, in the
  example state.\<close>

lemma example_tail:
  assumes "bytes_needed dec = 0" and "messages s = messages streaming_state"
  shows "read_loop example_parse (js ''m1'') dec []
           [Value (bytes ''data: {\"content\":\"ab\"}\<newline>\<newline>''), Done] s =
         Completed (s\<lparr>messages :=
           [\<lparr>msg_id = js ''m0'', role = User, content = js ''hi''\<rparr>,
            \<lparr>msg_id = js ''m1'', role = Assistant, content = js ''ab''\<rparr>]\<rparr>)"
proof -
  have m: "js ''m0'' \<noteq> js ''m1''" by (simp add: js_def)
  have "read_loop example_parse (js ''m1'') dec []
           [Value (bytes ''data: {\"content\":\"ab\"}\<newline>\<newline>''), Done] s =
        Completed (process_part example_parse (js ''m1'') s (js ''data: {\"content\":\"ab\"}''))"
    using read_loop_event [OF assms(1) ascii_event_ab split_event_ab, of example_parse "js ''m1''" "[Done]" s]
    by simp
  then show ?thesis
    using assms(2) m by (simp add: part_ab [where P = example_parse, OF example_parse_ab] streaming_state_def)
qed

text \<open>
  C2. The two events \<open>data: {"content":"ab"}\<close> and \<open>data: {"content":"cd"}\<close>, each closed
  by a blank line, are 48 bytes. However the bytes are cut into two chunks (after \<open>k\<close>
  bytes, for any \<open>k\<close>), the read loop ends with \<open>abcd\<close> appended to the content of the
  assistant's message and nothing else changed, given only that \<open>JSON.parse\<close> decodes the
  two payloads as JSON prescribes.
\<close>

theorem chunk_boundary_independence:
  assumes ab: "JSON_parse (js ''{\"content\":\"ab\"}'') =
                 Inr (Some \<lparr>content_field = Some (js ''ab''), done_field = None\<rparr>)"
    and cd: "JSON_parse (js ''{\"content\":\"cd\"}'') =
                 Inr (Some \<lparr>content_field = Some (js ''cd''), done_field = None\<rparr>)"
  shows "read_loop JSON_parse assistantId new_decoder []
           [Value (take k (bytes ''data: {\"content\":\"ab\"}\<newline>\<newline>data: {\"content\":\"cd\"}\<newline>\<newline>'')),
            Value (drop k (bytes ''data: {\"content\":\"ab\"}\<newline>\<newline>data: {\"content\":\"cd\"}\<newline>\<newline>'')),
            Done] st =
         Completed (st\<lparr>messages := map (\<lambda>msg.
             if msg_id msg = assistantId then msg\<lparr>content := content msg @ js ''abcd''\<rparr> else msg)
           (messages st)\<rparr>)"
proof -
  let ?b = "bytes ''data: {\"content\":\"ab\"}\<newline>\<newline>data: {\"content\":\"cd\"}\<newline>\<newline>''"
  let ?sep = "js ''\<newline>\<newline>''"
  have "\<forall>b\<in>set ?b. b \<le> 0x7F"
    by (simp add: bytes_def)
  then have asc: "\<forall>v\<in>set [take k ?b, drop k ?b]. \<forall>b\<in>set v. b \<le> 0x7F"
    by (auto dest: in_set_takeD in_set_dropD)
  have whole: "map ucast ?b =
      js ''data: {\"content\":\"ab\"}\<newline>\<newline>data: {\"content\":\"cd\"}\<newline>\<newline>''"
    by (simp add: bytes_def js_def)
  have "decode_chunks new_decoder [take k ?b, drop k ?b] = map ucast (concat [take k ?b, drop k ?b])"
    using asc by (intro decode_chunks_ascii) (simp_all add: new_decoder_def)
  then have decoded: "decode_chunks new_decoder [take k ?b, drop k ?b] =
      js ''data: {\"content\":\"ab\"}\<newline>\<newline>data: {\"content\":\"cd\"}\<newline>\<newline>''"
    using whole by simp
  have empty: "split [] ?sep = [[]]"
    by (simp add: split_def js_def)
  have "read_loop JSON_parse assistantId new_decoder [] (map Value [take k ?b, drop k ?b] @ [Done]) st =
      Completed (foldl (process_part JSON_parse assistantId) st
        (butlast (split ([] @ decode_chunks new_decoder [take k ?b, drop k ?b]) ?sep)))"
    using empty by (rule read_loop_chunks)
  then have run: "read_loop JSON_parse assistantId new_decoder [] [Value (take k ?b), Value (drop k ?b), Done] st =
      Completed (foldl (process_part JSON_parse assistantId) st
        [js ''data: {\"content\":\"ab\"}'', js ''data: {\"content\":\"cd\"}''])"
    by (simp add: decoded split_example del: read_loop.simps decode_chunks.simps)
  have abcd: "js ''ab'' @ js ''cd'' = js ''abcd''" by (simp add: js_def)
  have comp: "(\<lambda>msg. if msg_id msg = assistantId then msg\<lparr>content := content msg @ js ''cd''\<rparr> else msg) \<circ>
          (\<lambda>msg. if msg_id msg = assistantId then msg\<lparr>content := content msg @ js ''ab''\<rparr> else msg)
        = (\<lambda>msg. if msg_id msg = assistantId then msg\<lparr>content := content msg @ js ''abcd''\<rparr> else msg)"
    by (auto simp: fun_eq_iff abcd [symmetric])
  show ?thesis
    by (simp add: run part_ab [where P = JSON_parse, OF ab] part_cd [where P = JSON_parse, OF cd] comp del: read_loop.simps)
qed

theorem chunk_boundary_independence_witness:
  "example_parse (js ''{\"content\":\"ab\"}'') =
      Inr (Some \<lparr>content_field = Some (js ''ab''), done_field = None\<rparr>) \<and>
   example_parse (js ''{\"content\":\"cd\"}'') =
      Inr (Some \<lparr>content_field = Some (js ''cd''), done_field = None\<rparr>) \<and>
   read_loop example_parse (js ''m1'') new_decoder []
     [Value (take 30 (bytes ''data: {\"content\":\"ab\"}\<newline>\<newline>data: {\"content\":\"cd\"}\<newline>\<newline>'')),
      Value (drop 30 (bytes ''data: {\"content\":\"ab\"}\<newline>\<newline>data: {\"content\":\"cd\"}\<newline>\<newline>'')),
      Done] streaming_state =
     Completed (streaming_state\<lparr>messages :=
       [\<lparr>msg_id = js ''m0'', role = User, content = js ''hi''\<rparr>,
        \<lparr>msg_id = js ''m1'', role = Assistant, content = js ''abcd''\<rparr>]\<rparr>)"
proof -
  have m: "js ''m0'' \<noteq> js ''m1''"
    by (simp add: js_def)
  show ?thesis
    using chunk_boundary_independence [where JSON_parse = example_parse and assistantId = "js ''m1''"
        and k = 30 and st = streaming_state, OF example_parse_ab example_parse_cd]
      example_parse_ab example_parse_cd m
    by (simp add: streaming_state_def del: read_loop.simps)
qed

text \<open>
  C5. A payload whose \<open>done\<close> is true clears the loading flag and changes nothing else.
  The loop does not stop at it: after the chunk \<open>data: {"done":true}\<close> the loop goes on
  with the reads that follow, whatever they are, and the loop completes only when a read
  signals end of data.
\<close>

theorem done_event_keeps_reading:
  assumes "done_field d = Some True"
  shows "apply_data assistantId st d = st\<lparr>isLoading := False\<rparr> \<and>
    (JSON_parse (js ''{\"done\":true}'') = Inr (Some d) \<longrightarrow>
       read_loop JSON_parse assistantId new_decoder []
         (Value (bytes ''data: {\"done\":true}\<newline>\<newline>'') # reads) st =
       read_loop JSON_parse assistantId (new_decoder\<lparr>bom_seen := True\<rparr>) [] reads
         (st\<lparr>isLoading := False\<rparr>)) \<and>
    (\<forall>dec buf rs s s'.
       read_loop JSON_parse assistantId dec buf rs s = Completed s' \<longrightarrow> Done \<in> set rs)"
proof -
  let ?v = "bytes ''data: {\"done\":true}\<newline>\<newline>''"
  have a: "apply_data assistantId st d = st\<lparr>isLoading := False\<rparr>"
    using assms by (simp add: apply_data_def)
  have ne: "?v \<noteq> []" by (simp add: bytes_def)
  have loop: "read_loop JSON_parse assistantId new_decoder [] (Value ?v # reads) st =
       read_loop JSON_parse assistantId (new_decoder\<lparr>bom_seen := True\<rparr>) [] reads
         (process_part JSON_parse assistantId st (js ''data: {\"done\":true}''))"
    using read_loop_event [OF _ ascii_event_done split_event_done,
        of new_decoder JSON_parse assistantId reads st] ne
    by (simp add: new_decoder_def del: read_loop.simps)
  have part: "JSON_parse (js ''{\"done\":true}'') = Inr (Some d) \<Longrightarrow>
      process_part JSON_parse assistantId st (js ''data: {\"done\":true}'') = st\<lparr>isLoading := False\<rparr>"
    by (rule part_done [where P = JSON_parse, OF _ assms])
  show ?thesis
    using a loop part read_loop_stops by (auto simp del: read_loop.simps)
qed

theorem done_event_keeps_reading_witness:
  "done_field \<lparr>content_field = None, done_field = Some True\<rparr> = Some True \<and>
   apply_data (js ''m1'') streaming_state \<lparr>content_field = None, done_field = Some True\<rparr> =
     streaming_state\<lparr>isLoading := False\<rparr> \<and>
   example_parse (js ''{\"done\":true}'') = Inr (Some \<lparr>content_field = None, done_field = Some True\<rparr>) \<and>
   read_loop example_parse (js ''m1'') new_decoder []
     [Value (bytes ''data: {\"done\":true}\<newline>\<newline>''),
      Value (bytes ''data: {\"content\":\"ab\"}\<newline>\<newline>''), Done] streaming_state =
     Completed (streaming_state\<lparr>isLoading := False, messages :=
       [\<lparr>msg_id = js ''m0'', role = User, content = js ''hi''\<rparr>,
        \<lparr>msg_id = js ''m1'', role = Assistant, content = js ''ab''\<rparr>]\<rparr>)"
proof -
  have d: "done_field \<lparr>content_field = None, done_field = Some True\<rparr> = Some True"
    by simp
  have tail: "read_loop example_parse (js ''m1'') (new_decoder\<lparr>bom_seen := True\<rparr>) []
      [Value (bytes ''data: {\"content\":\"ab\"}\<newline>\<newline>''), Done] (streaming_state\<lparr>isLoading := False\<rparr>) =
      Completed (streaming_state\<lparr>isLoading := False, messages :=
       [\<lparr>msg_id = js ''m0'', role = User, content = js ''hi''\<rparr>,
        \<lparr>msg_id = js ''m1'', role = Assistant, content = js ''ab''\<rparr>]\<rparr>)"
    by (rule example_tail) (simp_all add: new_decoder_def)
  show ?thesis
    using done_event_keeps_reading [OF d, of "js ''m1''" streaming_state example_parse
        "[Value (bytes ''data: {\"content\":\"ab\"}\<newline>\<newline>''), Done]"]
      example_parse_done tail
    by (simp del: read_loop.simps)
qed

text \<open>
  C6 (as the code has it). Applying a payload with non-empty content whose \<open>done\<close> is not
  true maps the log message by message: the content of a message with the assistant
  message's identifier gets the payload's content appended, a message with another
  identifier is unchanged, no identifier and no role changes, and the log keeps its
  length. A payload whose \<open>done\<close> is true leaves the log unchanged whatever its content:
  the \<open>done\<close> case is taken first. Outside the log only the loading flag can differ.
\<close>

theorem content_event_frame:
  assumes "content_field d = Some c" and "c \<noteq> []"
  shows "messages (apply_data assistantId st d) =
           map (\<lambda>msg. if msg_id msg = assistantId \<and> done_field d \<noteq> Some True
                      then msg\<lparr>content := content msg @ c\<rparr> else msg) (messages st) \<and>
         length (messages (apply_data assistantId st d)) = length (messages st) \<and>
         (\<forall>i < length (messages st).
            msg_id (messages (apply_data assistantId st d) ! i) = msg_id (messages st ! i) \<and>
            role (messages (apply_data assistantId st d) ! i) = role (messages st ! i) \<and>
            (msg_id (messages st ! i) \<noteq> assistantId \<longrightarrow>
               messages (apply_data assistantId st d) ! i = messages st ! i)) \<and>
         (apply_data assistantId st d)\<lparr>messages := messages st, isLoading := isLoading st\<rparr> = st"
proof -
  let ?f = "\<lambda>msg. if msg_id msg = assistantId \<and> done_field d \<noteq> Some True
                      then msg\<lparr>content := content msg @ c\<rparr> else msg"
  have m: "messages (apply_data assistantId st d) = map ?f (messages st)"
    using assms by (simp add: apply_data_def map_idI)
  have r: "(apply_data assistantId st d)\<lparr>messages := messages st, isLoading := isLoading st\<rparr> = st"
    using assms by (simp add: apply_data_def)
  show ?thesis
    unfolding m using r m by simp
qed

theorem content_event_frame_witness:
  "content_field \<lparr>content_field = Some (js ''ab''), done_field = None\<rparr> = Some (js ''ab'') \<and>
   js ''ab'' \<noteq> [] \<and>
   messages (apply_data (js ''m1'') streaming_state \<lparr>content_field = Some (js ''ab''), done_field = None\<rparr>) =
     [\<lparr>msg_id = js ''m0'', role = User, content = js ''hi''\<rparr>,
      \<lparr>msg_id = js ''m1'', role = Assistant, content = js ''ab''\<rparr>]"
proof -
  have c: "content_field \<lparr>content_field = Some (js ''ab''), done_field = None\<rparr> = Some (js ''ab'')"
    by simp
  have ne: "js ''ab'' \<noteq> []" by (simp add: js_def)
  have m: "js ''m0'' \<noteq> js ''m1''" by (simp add: js_def)
  show ?thesis
    using content_event_frame [OF c ne, of "js ''m1''" streaming_state] ne m
    by (simp add: streaming_state_def)
qed

text \<open>
  Without the condition on \<open>done\<close> the property fails: the payload
  \<open>{"content":"x","done":true}\<close> has non-empty content, and applying it appends nothing to
  the assistant's message.
\<close>

theorem content_with_done_not_appended:
  "content_field \<lparr>content_field = Some (js ''x''), done_field = Some True\<rparr> = Some (js ''x'') \<and>
   js ''x'' \<noteq> [] \<and>
   messages streaming_state =
     [\<lparr>msg_id = js ''m0'', role = User, content = js ''hi''\<rparr>,
      \<lparr>msg_id = js ''m1'', role = Assistant, content = []\<rparr>] \<and>
   messages (apply_data (js ''m1'') streaming_state
      \<lparr>content_field = Some (js ''x''), done_field = Some True\<rparr>) =
     [\<lparr>msg_id = js ''m0'', role = User, content = js ''hi''\<rparr>,
      \<lparr>msg_id = js ''m1'', role = Assistant, content = []\<rparr>] \<and>
   example_parse (js ''{\"content\":\"x\",\"done\":true}'') =
     Inr (Some \<lparr>content_field = Some (js ''x''), done_field = Some True\<rparr>) \<and>
   messages (process_line example_parse (js ''m1'') streaming_state
      (js ''data: {\"content\":\"x\",\"done\":true}'')) =
     [\<lparr>msg_id = js ''m0'', role = User, content = js ''hi''\<rparr>,
      \<lparr>msg_id = js ''m1'', role = Assistant, content = []\<rparr>]"
proof -
  have p: "example_parse (js ''{\"content\":\"x\",\"done\":true}'') =
     Inr (Some \<lparr>content_field = Some (js ''x''), done_field = Some True\<rparr>)"
    by (simp add: example_parse_def js_def)
  have sw: "startsWith (js ''data: {\"content\":\"x\",\"done\":true}'') (js ''data:'')"
    by (simp add: startsWith_def js_def)
  have pl: "trim (drop 5 (js ''data: {\"content\":\"x\",\"done\":true}'')) =
      js ''{\"content\":\"x\",\"done\":true}''"
    by (simp add: trim_def trimStart_def trimEnd_def isWhiteSpace_def js_def)
  have a: "messages (apply_data (js ''m1'') streaming_state
      \<lparr>content_field = Some (js ''x''), done_field = Some True\<rparr>) = messages streaming_state"
    by (simp add: apply_data_def)
  have l: "process_line example_parse (js ''m1'') streaming_state
      (js ''data: {\"content\":\"x\",\"done\":true}'') =
      apply_data (js ''m1'') streaming_state \<lparr>content_field = Some (js ''x''), done_field = Some True\<rparr>"
    by (simp add: process_line_def sw pl p)
  have m: "messages streaming_state =
     [\<lparr>msg_id = js ''m0'', role = User, content = js ''hi''\<rparr>,
      \<lparr>msg_id = js ''m1'', role = Assistant, content = []\<rparr>]"
    by (simp add: streaming_state_def)
  show ?thesis
    by (simp add: p l a m)
qed



text \<open>
  C10. End of data ends the loop with the state as it is, whatever the buffer holds. Over
  a whole stream the loop applies the pieces of the decoded text that a blank line
  closes, in order, and never the last piece, the one after the last separator. A
  fragment without a blank line in it (and not starting with a newline that would
  complete one) changes nothing when it is added at the end of a stream.
\<close>

theorem trailing_fragment_discarded:
  "read_loop JSON_parse assistantId dec buffer (Done # reads) st = Completed st \<and>
   read_loop JSON_parse assistantId new_decoder [] (map Value chunks @ [Done]) st =
     Completed (foldl (process_part JSON_parse assistantId) st
       (butlast (split (decode_chunks new_decoder chunks) (js ''\<newline>\<newline>'')))) \<and>
   (\<not> includes_str fragment (js ''\<newline>\<newline>'') \<and> \<not> startsWith fragment (js ''\<newline>'') \<longrightarrow>
      butlast (split (decoded @ fragment) (js ''\<newline>\<newline>'')) =
      butlast (split decoded (js ''\<newline>\<newline>'')))"
proof -
  have empty: "split [] (js ''\<newline>\<newline>'') = [[]]"
    by (simp add: split_def js_def)
  have sep: "js ''\<newline>\<newline>'' \<noteq> []" by (simp add: js_def)
  have one: "read_loop JSON_parse assistantId dec buffer (Done # reads) st = Completed st"
    by simp
  have "read_loop JSON_parse assistantId new_decoder [] (map Value chunks @ [Done]) st =
     Completed (foldl (process_part JSON_parse assistantId) st
       (butlast (split ([] @ decode_chunks new_decoder chunks) (js ''\<newline>\<newline>''))))"
    using empty by (rule read_loop_chunks)
  then have two: "read_loop JSON_parse assistantId new_decoder [] (map Value chunks @ [Done]) st =
     Completed (foldl (process_part JSON_parse assistantId) st
       (butlast (split (decode_chunks new_decoder chunks) (js ''\<newline>\<newline>''))))"
    by (simp del: read_loop.simps)
  have three: "butlast (split (decoded @ fragment) (js ''\<newline>\<newline>'')) =
      butlast (split decoded (js ''\<newline>\<newline>''))"
    if "\<not> includes_str fragment (js ''\<newline>\<newline>'')" "\<not> startsWith fragment (js ''\<newline>'')"
    using split_from_fragment [OF that, of "[]" decoded] sep by (simp add: split_def)
  show ?thesis
    using one two three by blast
qed

theorem trailing_fragment_discarded_witness:
  "\<not> includes_str (js ''data: {\"content\":\"cd\"}'') (js ''\<newline>\<newline>'') \<and>
   \<not> startsWith (js ''data: {\"content\":\"cd\"}'') (js ''\<newline>'') \<and>
   butlast (split (js ''data: {\"content\":\"ab\"}\<newline>\<newline>'' @ js ''data: {\"content\":\"cd\"}'') (js ''\<newline>\<newline>'')) =
     [js ''data: {\"content\":\"ab\"}''] \<and>
   read_loop example_parse (js ''m1'') new_decoder []
     (map Value [bytes ''data: {\"content\":\"ab\"}\<newline>\<newline>'', bytes ''data: {\"content\":\"cd\"}''] @ [Done])
     streaming_state =
     Completed (streaming_state\<lparr>messages :=
       [\<lparr>msg_id = js ''m0'', role = User, content = js ''hi''\<rparr>,
        \<lparr>msg_id = js ''m1'', role = Assistant, content = js ''ab''\<rparr>]\<rparr>)"
proof -
  let ?chunks = "[bytes ''data: {\"content\":\"ab\"}\<newline>\<newline>'', bytes ''data: {\"content\":\"cd\"}'']"
  have f1: "\<not> includes_str (js ''data: {\"content\":\"cd\"}'') (js ''\<newline>\<newline>'')"
    by (simp add: js_def startsWith_def)
  have f2: "\<not> startsWith (js ''data: {\"content\":\"cd\"}'') (js ''\<newline>'')"
    by (simp add: js_def startsWith_def)
  have sp: "split (js ''data: {\"content\":\"ab\"}\<newline>\<newline>'') (js ''\<newline>\<newline>'') =
      [js ''data: {\"content\":\"ab\"}'', []]"
    using split_event_ab by (simp add: bytes_def js_def)
  have "decode_chunks new_decoder ?chunks = map ucast (concat ?chunks)"
    by (rule decode_chunks_ascii) (simp_all add: new_decoder_def bytes_def)
  then have dc: "decode_chunks new_decoder ?chunks =
      js ''data: {\"content\":\"ab\"}\<newline>\<newline>'' @ js ''data: {\"content\":\"cd\"}''"
    by (simp add: bytes_def js_def)
  have m: "js ''m0'' \<noteq> js ''m1''" by (simp add: js_def)
  show ?thesis
    using trailing_fragment_discarded [of example_parse "js ''m1''" new_decoder "[]" "[]" streaming_state
        ?chunks "js ''data: {\"content\":\"cd\"}''" "js ''data: {\"content\":\"ab\"}\<newline>\<newline>''"]
      f1 f2 m
    by (simp add: dc sp part_ab [where P = example_parse, OF example_parse_ab] streaming_state_def
          del: read_loop.simps decode_chunks.simps)
qed

section \<open>The example run\<close>

lemma response_done_open:
  "sendMessage_response example_parse aid c
     (Replied \<lparr>stream_status = 200, stream_detail = None,
               body = Some [Value (bytes ''data: {\"done\":true}\<newline>\<newline>'')]\<rparr>) s =
   (False, s\<lparr>isLoading := False\<rparr>)"
proof -
  have "read_loop example_parse aid new_decoder [] [Value (bytes ''data: {\"done\":true}\<newline>\<newline>'')] s =
      Waiting (process_part example_parse aid s (js ''data: {\"done\":true}''))"
    using read_loop_event [OF _ ascii_event_done split_event_done, of new_decoder example_parse aid "[]" s]
    by (simp add: new_decoder_def)
  then show ?thesis
    by (simp add: sendMessage_response_def ok_def
          part_done [where P = example_parse, OF example_parse_done]
          del: read_loop.simps)
qed

lemma one_stream_state_eq:
  "one_stream_state =
     active_state\<lparr>
       messages := [\<lparr>msg_id = js ''m0'', role = User, content = js ''hi''\<rparr>,
                    \<lparr>msg_id = js ''m1'', role = Assistant, content = []\<rparr>],
       messagesRef := [\<lparr>msg_id = js ''m0'', role = User, content = js ''hi''\<rparr>,
                    \<lparr>msg_id = js ''m1'', role = Assistant, content = []\<rparr>],
       isLoading := False, abortRef := Some 0, controllers := 1, uuid_calls := 2,
       requests := [PostStream (js ''tok-s1'') [(User, js ''hi'')] 0]\<rparr>"
proof -
  have start: "sendMessage_start example_uuid (Failed NonError) (Failed NonError) (js ''hi'') active_state =
     Streaming (js ''m1'') 0
       (active_state\<lparr>
          messages := [\<lparr>msg_id = js ''m0'', role = User, content = js ''hi''\<rparr>,
                       \<lparr>msg_id = js ''m1'', role = Assistant, content = []\<rparr>],
          isLoading := True, abortRef := Some 0, controllers := 1, uuid_calls := 2,
          requests := [PostStream (js ''tok-s1'') [(User, js ''hi'')] 0]\<rparr>)"
    by (simp add: sendMessage_start_def sendMessage_begin_def optimistic_append_def trim_hi
         active_state_def initial_state_def resolve_session_def example_session_def trim_first_chat
         issue_stream_def example_uuids Let_def)
  show ?thesis
    unfolding one_stream_state_def start started_state.simps response_done_open
    by (simp add: commit_render_def active_state_def initial_state_def)
qed

section \<open>Loading the history\<close>

lemma assign_ids_props:
  "map (\<lambda>m. (role m, content m)) (assign_ids u n ms) = ms \<and>
   map msg_id (assign_ids u n ms) = map u [n ..< n + length ms]"
proof (induction ms arbitrary: n)
  case Nil
  show ?case by simp
next
  case (Cons m ms)
  obtain r c where m: "m = (r, c)" by (cases m)
  have "[n ..< n + length (m # ms)] = n # [Suc n ..< Suc n + length ms]"
    by (simp add: upt_rec)
  then show ?case using Cons.IH [of "Suc n"] m by simp
qed

lemma first_send:
  "sendMessage_start example_uuid created_response renamed_response (js ''hi'') logged_in_state =
   Streaming (js ''m1'') 0
    (logged_in_state\<lparr>
       messages := [\<lparr>msg_id = js ''m0'', role = User, content = js ''hi''\<rparr>,
                    \<lparr>msg_id = js ''m1'', role = Assistant, content = []\<rparr>],
       sessions := [\<lparr>session_id = js ''s2'', name = js ''hi'',
                   token = \<lparr>access_token = js ''tok-s2'', expires_at = js ''2030-01-01''\<rparr>\<rparr>],
       messagesRef := [\<lparr>msg_id = js ''m0'', role = User, content = js ''hi''\<rparr>,
                       \<lparr>msg_id = js ''m1'', role = Assistant, content = []\<rparr>],
       currentSessionId := Some (js ''s2''), sessionToken := Some (js ''tok-s2''),
       abortRef := Some 0,
       localStorage := Some [USER_TOKEN_KEY \<mapsto> js ''tok-u'', SESSION_TOKEN_KEY \<mapsto> js ''tok-s2'',
                             SESSION_ID_KEY \<mapsto> js ''s2''],
       controllers := 1, uuid_calls := 2,
       requests := [PostSession (js ''tok-u''), PatchName (js ''s2'') (js ''tok-s2'') (js ''hi''),
                    PostStream (js ''tok-s2'')
                      [(User, js ''hi''), (Assistant, []), (User, js ''hi'')] 0]\<rparr>)"
  apply (simp add: sendMessage_start_def sendMessage_begin_def optimistic_append_def trim_hi
     logged_in_state_def initial_state_def resolve_session_def createSession_def created_response_def
     renamed_response_def derive_hi renameSession_def ok_def selectSession_def stop_def storeSessionToken_def
     issue_stream_def example_uuid_def commit_render_def Let_def)
  apply (simp add: js_def)
  done

text \<open>
  C3 (as the code has it). A successful response to the history request replaces the log
  only when it carries a non-empty message list: then the log is the returned list, entry
  by entry and in the order of the server, each entry with the identifier of a new
  \<open>uuidv4()\<close> call. A successful response without a list or with an empty list leaves
  the log as it is.
\<close>

theorem history_replaces_log:
  assumes "sessionToken st = Some tok" and "tok \<noteq> []" and "\<not> historyLoadedRef st"
    and "ok (status r)" and "data r = Inr returned"
  shows "(case returned of
            None \<Rightarrow> messages (loadHistory uuidv4 (Replied r) st) = messages st
          | Some [] \<Rightarrow> messages (loadHistory uuidv4 (Replied r) st) = messages st
          | Some (m # ms) \<Rightarrow>
              messages (loadHistory uuidv4 (Replied r) st) = assign_ids uuidv4 (uuid_calls st) (m # ms) \<and>
              map (\<lambda>msg. (role msg, content msg)) (messages (loadHistory uuidv4 (Replied r) st)) = m # ms \<and>
              map msg_id (messages (loadHistory uuidv4 (Replied r) st)) =
                map uuidv4 [uuid_calls st ..< uuid_calls st + length (m # ms)] \<and>
              uuid_calls (loadHistory uuidv4 (Replied r) st) = uuid_calls st + length (m # ms))"
proof -
  have s: "status r \<noteq> 401" "status r \<noteq> 403"
    using assms(4) by (auto simp: ok_def)
  show ?thesis
  proof (cases returned)
    case None
    then show ?thesis using assms s by (simp add: loadHistory_def)
  next
    case (Some l)
    show ?thesis
    proof (cases l)
      case Nil
      then show ?thesis using Some assms s by (simp add: loadHistory_def)
    next
      case (Cons m ms)
      have "messages (loadHistory uuidv4 (Replied r) st) = assign_ids uuidv4 (uuid_calls st) (m # ms)"
        and "uuid_calls (loadHistory uuidv4 (Replied r) st) = uuid_calls st + length (m # ms)"
        using Some Cons assms s by (simp_all add: loadHistory_def)
      then show ?thesis
        using Some Cons assign_ids_props [of uuidv4 "uuid_calls st" "m # ms"] by simp
    qed
  qed
qed

theorem history_replaces_log_witness:
  "sessionToken one_stream_state = Some (js ''tok-s1'') \<and>
   historyLoadedRef one_stream_state = False \<and>
   ok 200 \<and>
   messages one_stream_state =
     [\<lparr>msg_id = js ''m0'', role = User, content = js ''hi''\<rparr>,
      \<lparr>msg_id = js ''m1'', role = Assistant, content = []\<rparr>] \<and>
   messages (loadHistory example_uuid
      (Replied \<lparr>status = 200, detail = None,
                data = Inr (Some [(User, js ''question''), (Assistant, js ''answer'')])\<rparr>)
      one_stream_state) =
     [\<lparr>msg_id = js ''m2'', role = User, content = js ''question''\<rparr>,
      \<lparr>msg_id = js ''m3'', role = Assistant, content = js ''answer''\<rparr>]"
proof -
  let ?r = "\<lparr>status = 200, detail = None,
              data = Inr (Some [(User, js ''question''), (Assistant, js ''answer'')])\<rparr>
            :: (role \<times> jsstring) list option response"
  have h: "sessionToken one_stream_state = Some (js ''tok-s1'')" "js ''tok-s1'' \<noteq> []"
      "\<not> historyLoadedRef one_stream_state" "ok (status ?r)"
      "data ?r = Inr (Some [(User, js ''question''), (Assistant, js ''answer'')])"
      "uuid_calls one_stream_state = 2"
      "messages one_stream_state =
        [\<lparr>msg_id = js ''m0'', role = User, content = js ''hi''\<rparr>,
         \<lparr>msg_id = js ''m1'', role = Assistant, content = []\<rparr>]"
    by (simp_all add: one_stream_state_eq active_state_def initial_state_def ok_def)
  show ?thesis
    using history_replaces_log [OF h(1-5), of example_uuid] h
    by (simp add: example_uuids)
qed

text \<open>
  Without the condition on the list the property fails: the user of \<open>logged_in_state\<close>
  sends \<open>hi\<close>, a session is created for it (the log is kept), and the history of the new
  session comes back empty. The two messages of the log survive the successful load.
\<close>

theorem history_empty_keeps_log:
  "messages (loadHistory example_uuid (Replied \<lparr>status = 200, detail = None, data = Inr (Some [])\<rparr>)
     (started_state (sendMessage_start example_uuid created_response renamed_response (js ''hi'') logged_in_state))) =
   [\<lparr>msg_id = js ''m0'', role = User, content = js ''hi''\<rparr>,
    \<lparr>msg_id = js ''m1'', role = Assistant, content = []\<rparr>]"
  unfolding first_send started_state.simps
  by (simp add: loadHistory_def logged_in_state_def initial_state_def ok_def js_def)

text \<open>
  C8. When the history request is answered with status 401 or 403, the user token, the
  session token, the session list, the active session identifier and the log are
  cleared, in the state and in \<open>localStorage\<close>, and the error slot holds the fixed
  message, which is set after the logout has cleared the slot.
\<close>

theorem history_401_forces_logout:
  assumes "sessionToken st = Some tok" and "tok \<noteq> []" and "\<not> historyLoadedRef st"
    and "status r = 401 \<or> status r = 403"
  shows "userToken (loadHistory uuidv4 (Replied r) st) = None \<and>
         sessionToken (loadHistory uuidv4 (Replied r) st) = None \<and>
         sessions (loadHistory uuidv4 (Replied r) st) = [] \<and>
         currentSessionId (loadHistory uuidv4 (Replied r) st) = None \<and>
         messages (loadHistory uuidv4 (Replied r) st) = [] \<and>
         error (loadHistory uuidv4 (Replied r) st) = Some (js ''Session expired. Please log in again.'') \<and>
         localStorage (loadHistory uuidv4 (Replied r) st) = clearStoredTokens (localStorage st) \<and>
         (case localStorage (loadHistory uuidv4 (Replied r) st) of
            None \<Rightarrow> localStorage st = None
          | Some ls \<Rightarrow> ls USER_TOKEN_KEY = None \<and> ls SESSION_TOKEN_KEY = None \<and> ls SESSION_ID_KEY = None) \<and>
         isLoading (loadHistory uuidv4 (Replied r) st) = False \<and>
         abortRef (loadHistory uuidv4 (Replied r) st) = None \<and>
         historyLoadedRef (loadHistory uuidv4 (Replied r) st) = False"
proof -
  have "loadHistory uuidv4 (Replied r) st =
      (logout (st\<lparr>historyLoadedRef := True, requests := requests st @ [GetMessages tok]\<rparr>))
        \<lparr>error := Some SESSION_EXPIRED\<rparr>"
    using assms by (auto simp: loadHistory_def)
  then show ?thesis
    by (auto simp: logout_def stop_def SESSION_EXPIRED_def clearStoredTokens_def
             split: option.splits)
qed

theorem history_401_forces_logout_witness:
  "sessionToken active_state = Some (js ''tok-s1'') \<and>
   userToken active_state = Some (js ''tok-u'') \<and>
   userToken (loadHistory example_uuid
      (Replied \<lparr>status = 401, detail = None, data = Inl NonError\<rparr>) active_state) = None \<and>
   sessionToken (loadHistory example_uuid
      (Replied \<lparr>status = 401, detail = None, data = Inl NonError\<rparr>) active_state) = None \<and>
   sessions (loadHistory example_uuid
      (Replied \<lparr>status = 401, detail = None, data = Inl NonError\<rparr>) active_state) = [] \<and>
   error (loadHistory example_uuid
      (Replied \<lparr>status = 401, detail = None, data = Inl NonError\<rparr>) active_state) =
     Some (js ''Session expired. Please log in again.'')"
proof -
  let ?r = "\<lparr>status = 401, detail = None, data = Inl NonError\<rparr>
            :: (role \<times> jsstring) list option response"
  have h: "sessionToken active_state = Some (js ''tok-s1'')" "js ''tok-s1'' \<noteq> []"
      "\<not> historyLoadedRef active_state" "status ?r = 401 \<or> status ?r = 403"
      "userToken active_state = Some (js ''tok-u'')"
    by (simp_all add: active_state_def initial_state_def)
  show ?thesis
    using history_401_forces_logout [OF h(1-4), of example_uuid] h
    by simp
qed

section \<open>Sending a message\<close>

lemma stream_signals_append:
  "stream_signals (a @ b) = stream_signals a @ stream_signals b"
  by (induction a rule: stream_signals.induct) simp_all

lemma renameSession_frame:
  "abortRef (snd (renameSession res session nm upd st)) = abortRef st \<and>
   aborted (snd (renameSession res session nm upd st)) = aborted st \<and>
   settled (snd (renameSession res session nm upd st)) = settled st \<and>
   controllers (snd (renameSession res session nm upd st)) = controllers st \<and>
   messages (snd (renameSession res session nm upd st)) = messages st \<and>
   stream_signals (requests (snd (renameSession res session nm upd st))) = stream_signals (requests st)"
  by (simp add: renameSession_def Let_def stream_signals_append
        split: fetched.splits sum.splits)

lemma resolve_session_with_token:
  assumes "sessionToken st0 = Some tok" and "tok \<noteq> []"
  shows "fst (resolve_session rc rr st0 trimmed st) = Some tok \<and>
   abortRef (snd (resolve_session rc rr st0 trimmed st)) = abortRef st \<and>
   aborted (snd (resolve_session rc rr st0 trimmed st)) = aborted st \<and>
   settled (snd (resolve_session rc rr st0 trimmed st)) = settled st \<and>
   controllers (snd (resolve_session rc rr st0 trimmed st)) = controllers st \<and>
   messages (snd (resolve_session rc rr st0 trimmed st)) = messages st \<and>
   stream_signals (requests (snd (resolve_session rc rr st0 trimmed st))) = stream_signals (requests st)"
  using assms by (simp add: resolve_session_def renameSession_frame commit_render_def split: option.splits)

text \<open>
  C4 (as the code has it). For a text whose trimmed form is not empty and has at most
  3000 characters, and with the token that the guard asks for (the user token; the
  session token in \<open>src/providers/Stream.tsx\<close>), the beginning of \<open>sendMessage\<close> appends
  one user message with the trimmed text and one assistant message with empty content,
  in this order, and it has issued no request when it has done so: the requests of
  \<open>sendMessage\<close> are those of finding the session and of the stream, which start from
  the state with the two messages appended.
\<close>

theorem send_appends_two_messages:
  assumes "trim text \<noteq> []" and "length (trim text) \<le> 3000"
  shows "(\<not> falsy (userToken st) \<longrightarrow>
            sendMessage_begin uuidv4 text st =
              Accepted (trim text) \<lparr>msg_id = uuidv4 (uuid_calls st), role = User, content = trim text\<rparr>
                (uuidv4 (uuid_calls st + 1))
                (st\<lparr>error := None, isLoading := True, uuid_calls := uuid_calls st + 2,
                   messages := messages st @
                     [\<lparr>msg_id = uuidv4 (uuid_calls st), role = User, content = trim text\<rparr>,
                      \<lparr>msg_id = uuidv4 (uuid_calls st + 1), role = Assistant, content = []\<rparr>]\<rparr>)) \<and>
         (\<not> falsy (sessionToken st) \<longrightarrow>
            sendMessage_begin_tsx uuidv4 text st =
              Accepted (trim text) \<lparr>msg_id = uuidv4 (uuid_calls st), role = User, content = trim text\<rparr>
                (uuidv4 (uuid_calls st + 1))
                (st\<lparr>error := None, isLoading := True, uuid_calls := uuid_calls st + 2,
                   messages := messages st @
                     [\<lparr>msg_id = uuidv4 (uuid_calls st), role = User, content = trim text\<rparr>,
                      \<lparr>msg_id = uuidv4 (uuid_calls st + 1), role = Assistant, content = []\<rparr>]\<rparr>)) \<and>
         requests (st\<lparr>error := None, isLoading := True, uuid_calls := uuid_calls st + 2,
                   messages := messages st @
                     [\<lparr>msg_id = uuidv4 (uuid_calls st), role = User, content = trim text\<rparr>,
                      \<lparr>msg_id = uuidv4 (uuid_calls st + 1), role = Assistant, content = []\<rparr>]\<rparr>) = requests st \<and>
         (\<not> falsy (userToken st) \<longrightarrow>
            sendMessage_start uuidv4 res_create res_rename text st =
              (case resolve_session res_create res_rename st (trim text)
                      (st\<lparr>error := None, isLoading := True, uuid_calls := uuid_calls st + 2,
                         messages := messages st @
                           [\<lparr>msg_id = uuidv4 (uuid_calls st), role = User, content = trim text\<rparr>,
                            \<lparr>msg_id = uuidv4 (uuid_calls st + 1), role = Assistant, content = []\<rparr>]\<rparr>) of
                 (None, st2) \<Rightarrow> Returned st2
               | (Some activeSessionToken, st2) \<Rightarrow>
                   Streaming (uuidv4 (uuid_calls st + 1)) (controllers st2)
                     (snd (issue_stream activeSessionToken
                        \<lparr>msg_id = uuidv4 (uuid_calls st), role = User, content = trim text\<rparr> st2))))"
  using assms
  by (auto simp add: sendMessage_begin_def sendMessage_begin_tsx_def optimistic_append_def Let_def
        sendMessage_start_def issue_stream_def split: option.splits prod.splits)

theorem send_appends_two_messages_witness:
  "trim (js '' hi '') = js ''hi'' \<and>
   sendMessage_begin example_uuid (js '' hi '') active_state =
     Accepted (js ''hi'') \<lparr>msg_id = js ''m0'', role = User, content = js ''hi''\<rparr> (js ''m1'')
       (active_state\<lparr>error := None, isLoading := True, uuid_calls := 2,
          messages := [\<lparr>msg_id = js ''m0'', role = User, content = js ''hi''\<rparr>,
                       \<lparr>msg_id = js ''m1'', role = Assistant, content = []\<rparr>]\<rparr>) \<and>
   requests active_state = []"
proof -
  have h: "trim (js '' hi '') \<noteq> []" "length (trim (js '' hi '')) \<le> 3000"
    by (simp_all add: trim_hi_padded)
  have s: "\<not> falsy (userToken active_state)" "uuid_calls active_state = 0"
      "messages active_state = []" "requests active_state = []"
    by (simp_all add: active_state_def initial_state_def)
  show ?thesis
    using send_appends_two_messages [OF h, of active_state example_uuid "Failed NonError" "Failed NonError"] s
    by (simp add: trim_hi_padded example_uuids)
qed

text \<open>
  Without these conditions the property fails: a text of blanks has a trimmed form of
  length 0, and \<open>sendMessage\<close> returns without appending anything; and without the token
  of the guard it sets the error slot and returns.
\<close>

theorem send_blank_or_logged_out_appends_nothing:
  "length (trim (js ''   '')) \<le> 3000 \<and>
   sendMessage_begin example_uuid (js ''   '') active_state = Rejected active_state \<and>
   sendMessage_begin_tsx example_uuid (js ''   '') active_state = Rejected active_state \<and>
   length (trim (js ''hi'')) \<le> 3000 \<and>
   sendMessage_begin example_uuid (js ''hi'') initial_state =
     Rejected (initial_state\<lparr>error := Some (js ''Please log in to start chatting.'')\<rparr>) \<and>
   sendMessage_begin_tsx example_uuid (js ''hi'') initial_state =
     Rejected (initial_state\<lparr>error := Some (js ''Please log in to start chatting.'')\<rparr>) \<and>
   messages initial_state = []"
  by (simp add: trim_blank trim_hi sendMessage_begin_def sendMessage_begin_tsx_def optimistic_append_def
       active_state_def initial_state_def)

text \<open>
  The handle in \<open>abortRef\<close> is retired by \<open>stop\<close>, which aborts it and clears the ref, and
  \<open>selectSession\<close> begins with \<open>stop\<close>. So a \<open>sendMessage\<close> that finds no session token
  and creates a session has retired the previous handle when it issues its stream
  request.
\<close>

lemma stop_retires_handle:
  assumes "abortRef st = Some h"
  shows "abortRef (stop st) = None \<and> aborted (stop st) = insert h (aborted st) \<and>
         h \<notin> set (in_flight (stop st))"
  using assms by (simp add: stop_def in_flight_def)

lemma selectSession_retires_handle:
  assumes "abortRef st = Some h"
  shows "abortRef (selectSession session preserveMessages st) = None \<and>
         aborted (selectSession session preserveMessages st) = insert h (aborted st) \<and>
         controllers (selectSession session preserveMessages st) = controllers st"
  using assms by (simp add: selectSession_def stop_def Let_def)

lemma createSession_retires_handle:
  assumes "createSession res_create res_rename nm preserveMessages st = (Some session, st1)"
    and "abortRef st = Some h"
  shows "abortRef st1 = None \<and> aborted st1 = insert h (aborted st) \<and> controllers st1 = controllers st"
proof -
  obtain utok where u: "userToken st = Some utok" "utok \<noteq> []"
    using assms(1) by (cases "userToken st") (auto simp: createSession_def split: if_splits)
  let ?st1 = "st\<lparr>isLoading := True, error := None, requests := requests st @ [PostSession utok]\<rparr>"
  obtain r where r: "res_create = Replied r" "ok (status r)"
    using assms(1) u by (cases res_create) (auto simp: createSession_def Let_def split: if_splits)
  obtain created where c: "data r = Inr created"
    using assms(1) u r by (cases "data r") (auto simp: createSession_def Let_def)
  obtain renamed st2 where p:
    "(if \<not> falsy nm
        then renameSession res_rename created (case nm of Some n \<Rightarrow> n | None \<Rightarrow> []) False ?st1
      else (None, ?st1)) = (renamed, st2)"
    by (cases "if \<not> falsy nm
        then renameSession res_rename created (case nm of Some n \<Rightarrow> n | None \<Rightarrow> []) False ?st1
      else (None, ?st1)")
  have f: "abortRef st2 = Some h" "aborted st2 = aborted st" "controllers st2 = controllers st"
    using p assms(2)
      renameSession_frame [of res_rename created "case nm of Some n \<Rightarrow> n | None \<Rightarrow> []" False ?st1]
    by (auto split: if_splits)
  let ?final = "case renamed of Some s \<Rightarrow> s | None \<Rightarrow> created"
  let ?st3 = "st2\<lparr>sessions := ?final # sessions st2\<rparr>"
  have e: "st1 = (selectSession ?final preserveMessages ?st3)\<lparr>isLoading := False\<rparr>"
    using assms(1) u r c p by (auto simp add: createSession_def Let_def)
  have "abortRef ?st3 = Some h"
    using f by simp
  from selectSession_retires_handle [OF this, of ?final preserveMessages] show ?thesis
    using f by (simp add: e)
qed

lemma send_without_session_token_retires_handle:
  assumes "falsy (sessionToken st)" and "abortRef st = Some h" and "h < controllers st"
    and "sendMessage_start uuidv4 res_create res_rename text st = Streaming assistantId controller st'"
  shows "h \<in> aborted st' \<and> h \<notin> set (in_flight st') \<and> controller \<noteq> h \<and> abortRef st' = Some controller"
proof -
  obtain trimmed userMessage aid st1 where
    b: "sendMessage_begin uuidv4 text st = Accepted trimmed userMessage aid st1"
    using assms(4) by (cases "sendMessage_begin uuidv4 text st") (auto simp: sendMessage_start_def)
  have st1: "abortRef st1 = Some h" "aborted st1 = aborted st" "controllers st1 = controllers st"
    using b assms(2)
    by (auto simp: sendMessage_begin_def optimistic_append_def Let_def split: if_splits)
  obtain session st2 where
    c: "createSession res_create res_rename (Some (deriveSessionName trimmed)) True (commit_render st1) =
          (session, st2)"
    by (cases "createSession res_create res_rename (Some (deriveSessionName trimmed)) True (commit_render st1)")
  obtain tok where
    t: "resolve_session res_create res_rename st trimmed st1 = (Some tok, st2)"
       "session \<noteq> None"
    using assms(1,4) b c
    by (auto simp: sendMessage_start_def resolve_session_def split: option.splits if_splits prod.splits)
  then obtain s where s: "session = Some s"
    by auto
  have "abortRef (commit_render st1) = Some h"
    using st1 by (simp add: commit_render_def)
  from createSession_retires_handle [OF c [unfolded s] this]
  have st2: "aborted st2 = insert h (aborted st)" "controllers st2 = controllers st"
    using st1 by (simp_all add: commit_render_def)
  have i: "controller = controllers st" "st' = snd (issue_stream tok userMessage st2)"
    using assms(4) b t(1) st2 by (auto simp: sendMessage_start_def issue_stream_def Let_def)
  show ?thesis
    using i st2 assms(3) by (simp add: issue_stream_def Let_def in_flight_def)
qed

lemma send_without_session_token_example:
  "falsy (sessionToken (logged_in_state\<lparr>abortRef := Some 0, controllers := 1\<rparr>)) \<and>
   aborted (started_state
      (sendMessage_start example_uuid created_response renamed_response (js ''hi'')
         (logged_in_state\<lparr>abortRef := Some 0, controllers := 1\<rparr>))) = {0} \<and>
   abortRef (started_state
      (sendMessage_start example_uuid created_response renamed_response (js ''hi'')
         (logged_in_state\<lparr>abortRef := Some 0, controllers := 1\<rparr>))) = Some 1"
  by (simp add: sendMessage_start_def sendMessage_begin_def optimistic_append_def trim_hi
     logged_in_state_def initial_state_def resolve_session_def createSession_def created_response_def
     renamed_response_def derive_hi renameSession_def ok_def selectSession_def stop_def storeSessionToken_def
     issue_stream_def example_uuid_def commit_render_def Let_def)

text \<open>
  With a session token present \<open>sendMessage\<close> calls neither \<open>stop\<close> nor \<open>abort()\<close>: it
  creates a new controller, puts it in \<open>abortRef\<close> in place of the handle it finds there
  and issues the stream request with it.
\<close>

lemma send_with_session_token_keeps_handle:
  assumes "\<not> falsy (userToken st)" and "\<not> falsy (sessionToken st)"
    and "trim text \<noteq> []" and "length (trim text) \<le> 3000"
    and "abortRef st = Some h" and "h < controllers st"
  shows "sendMessage_start uuidv4 res_create res_rename text st =
           Streaming (uuidv4 (uuid_calls st + 1)) (controllers st)
             (started_state (sendMessage_start uuidv4 res_create res_rename text st)) \<and>
         abortRef (started_state (sendMessage_start uuidv4 res_create res_rename text st)) = Some (controllers st) \<and>
         controllers st \<noteq> h \<and>
         aborted (started_state (sendMessage_start uuidv4 res_create res_rename text st)) = aborted st \<and>
         settled (started_state (sendMessage_start uuidv4 res_create res_rename text st)) = settled st \<and>
         stream_signals (requests (started_state (sendMessage_start uuidv4 res_create res_rename text st))) =
           stream_signals (requests st) @ [controllers st] \<and>
         (controllers st \<notin> aborted st \<and> controllers st \<notin> settled st \<longrightarrow>
            in_flight (started_state (sendMessage_start uuidv4 res_create res_rename text st)) =
              in_flight st @ [controllers st]) \<and>
         abortRef (stop st) = None \<and> aborted (stop st) = insert h (aborted st) \<and>
         h \<notin> set (in_flight (stop st))"
proof -
  obtain tok where tok: "sessionToken st = Some tok" "tok \<noteq> []"
    using assms(2) by (cases "sessionToken st") auto
  let ?U = "\<lparr>msg_id = uuidv4 (uuid_calls st), role = User, content = trim text\<rparr>"
  let ?st2 = "st\<lparr>error := None, isLoading := True, uuid_calls := uuid_calls st + 2,
                   messages := messages st @
                     [?U, \<lparr>msg_id = uuidv4 (uuid_calls st + 1), role = Assistant, content = []\<rparr>]\<rparr>"
  have b: "sendMessage_begin uuidv4 text st = Accepted (trim text) ?U (uuidv4 (uuid_calls st + 1)) ?st2"
    using assms by (simp add: sendMessage_begin_def optimistic_append_def Let_def)
  obtain a s3 where r: "resolve_session res_create res_rename st (trim text) ?st2 = (a, s3)"
    by (cases "resolve_session res_create res_rename st (trim text) ?st2")
  have f: "a = Some tok" "abortRef s3 = abortRef st" "aborted s3 = aborted st" "settled s3 = settled st"
      "controllers s3 = controllers st"
      "stream_signals (requests s3) = stream_signals (requests st)"
    using resolve_session_with_token [OF tok, of res_create res_rename "trim text" ?st2] r by simp_all
  have s: "sendMessage_start uuidv4 res_create res_rename text st =
      Streaming (uuidv4 (uuid_calls st + 1)) (controllers st) (snd (issue_stream tok ?U s3))"
    using b r f by (simp add: sendMessage_start_def issue_stream_def Let_def)
  have i: "abortRef (snd (issue_stream tok ?U s3)) = Some (controllers st)"
      "aborted (snd (issue_stream tok ?U s3)) = aborted st"
      "settled (snd (issue_stream tok ?U s3)) = settled st"
      "stream_signals (requests (snd (issue_stream tok ?U s3))) = stream_signals (requests st) @ [controllers st]"
    using f by (simp_all add: issue_stream_def Let_def stream_signals_append)
  have st: "abortRef (stop st) = None" "aborted (stop st) = insert h (aborted st)"
    "h \<notin> set (in_flight (stop st))"
    using assms(5) by (simp_all add: stop_def in_flight_def)
  show ?thesis
    using s i st assms(6) by (simp add: in_flight_def)
qed

text \<open>
  C1. The claim fails in the run with two sends, on the path of \<open>sendMessage\<close> that finds
  a session token. The first stream is still open when the second \<open>sendMessage\<close> is called:
  its handle 0 is in \<open>abortRef\<close> and it is the one stream in flight (the loading flag is
  already cleared by the \<open>done\<close> event, so the form lets the user send). After the second
  call \<open>abortRef\<close> holds the new handle 1, no handle has been aborted, and the streams 0
  and 1 are both in flight. A call of \<open>stop\<close> in the same state aborts handle 0 and leaves
  no stream in flight.
\<close>

theorem second_send_leaves_first_stream:
  "abortRef one_stream_state = Some 0 \<and>
   isLoading one_stream_state = False \<and>
   in_flight one_stream_state = [0] \<and>
   two_streams_state =
     started_state (sendMessage_start example_uuid (Failed NonError) (Failed NonError) (js ''again'')
       one_stream_state) \<and>
   abortRef two_streams_state = Some 1 \<and>
   aborted two_streams_state = {} \<and>
   in_flight two_streams_state = [0, 1] \<and>
   aborted (stop one_stream_state) = {0} \<and>
   in_flight (stop one_stream_state) = []"
proof -
  have one: "abortRef one_stream_state = Some 0" "isLoading one_stream_state = False"
     "in_flight one_stream_state = [0]"
    by (simp_all add: one_stream_state_eq in_flight_def active_state_def initial_state_def)
  have "sendMessage_start example_uuid (Failed NonError) (Failed NonError) (js ''again'') one_stream_state =
     Streaming (js ''m3'') 1
       (one_stream_state\<lparr>
          messages := messages one_stream_state @
             [\<lparr>msg_id = js ''m2'', role = User, content = js ''again''\<rparr>,
              \<lparr>msg_id = js ''m3'', role = Assistant, content = []\<rparr>],
          isLoading := True, abortRef := Some 1, controllers := 2, uuid_calls := 4,
          requests := requests one_stream_state @
             [PostStream (js ''tok-s1'')
                [(User, js ''hi''), (Assistant, []), (User, js ''again'')] 1]\<rparr>)"
    unfolding one_stream_state_eq
    by (simp add: sendMessage_start_def sendMessage_begin_def optimistic_append_def trim_again
         active_state_def initial_state_def resolve_session_def example_session_def trim_first_chat
         issue_stream_def example_uuids Let_def)
  then have two: "two_streams_state = one_stream_state\<lparr>
          messages := messages one_stream_state @
             [\<lparr>msg_id = js ''m2'', role = User, content = js ''again''\<rparr>,
              \<lparr>msg_id = js ''m3'', role = Assistant, content = []\<rparr>],
          isLoading := True, abortRef := Some 1, controllers := 2, uuid_calls := 4,
          requests := requests one_stream_state @
             [PostStream (js ''tok-s1'')
                [(User, js ''hi''), (Assistant, []), (User, js ''again'')] 1]\<rparr>"
    by (simp add: two_streams_state_def)
  have "abortRef two_streams_state = Some 1" "aborted two_streams_state = {}"
     "in_flight two_streams_state = [0, 1]"
    unfolding two one_stream_state_eq
    by (simp_all add: in_flight_def active_state_def initial_state_def)
  then have after: "abortRef two_streams_state = Some 1 \<and> aborted two_streams_state = {} \<and>
     in_flight two_streams_state = [0, 1]"
    by simp
  have stopped: "aborted (stop one_stream_state) = {0}" "in_flight (stop one_stream_state) = []"
    unfolding one_stream_state_eq
    by (simp_all add: stop_def in_flight_def active_state_def initial_state_def)
  show ?thesis
    using one after stopped by (simp add: two_streams_state_def)
qed

section \<open>The label of a session\<close>

subsection \<open>trim\<close>












subsection \<open>replace\<close>



lemma replace_ws_Nil [simp]: "replace_ws s = [] \<longleftrightarrow> s = []"
  by (cases s) simp_all









end
